theory Spec2Isabelle
  imports Main "HOL-Library.AList"
begin

section \<open>The compliance database\<close>

text \<open>
  The DAG of \<^verbatim>\<open>compliance/dags/data_retention_dag.py\<close> talks to one Postgres
  database through \<^verbatim>\<open>PostgresHook\<close>. The database is the environment of the
  program; it is modelled as a record holding the tables the DAG reads and writes,
  together with what the environment decides for each statement:
  \<^item> \<open>stmt_no\<close> counts the statements executed so far;
  \<^item> \<open>db_now n\<close> is the value of SQL \<^verbatim>\<open>NOW()\<close> when the \<open>n\<close>-th statement
    runs (every statement evaluates \<^verbatim>\<open>NOW()\<close> once, for all its rows);
  \<^item> \<open>db_fails n\<close> says that the \<open>n\<close>-th statement raises (an outage, a missing
    relation, a constraint) and changes nothing;
  \<^item> \<open>random_uuid n i\<close> is what \<^verbatim>\<open>generate_random_uuid()\<close> yields for the
    \<open>i\<close>-th row of the \<open>n\<close>-th statement;
  \<^item> \<open>py_now n k\<close> is what the \<open>k\<close>-th call of \<^verbatim>\<open>datetime.now()\<close> that a task
    makes after \<open>n\<close> statements yields on the worker.
  Timestamps are seconds as integers; an interval of \<open>d\<close> days is \<open>d * 86400\<close>.
  Python dictionaries are association lists in insertion order; \<open>d[k] = v\<close> is
  \<open>AList.update k v d\<close> (replace in place, or append a new key).
\<close>

type_synonym timestamp = int

datatype py_error = DatabaseError nat | KeyError string

record data_row =
  created_at :: timestamp
  anonymized_at :: "timestamp option"
  anonymization_reason :: "string option"
  columns :: "string \<rightharpoonup> string"

record legal_hold_row =
  lh_table_name :: string
  lh_record_id :: nat
  lh_hold_reason :: string
  lh_created_by :: string
  lh_created_at :: timestamp
  lh_status :: string
  lh_expiration_date :: "timestamp option"

text \<open>The dictionary stored per table by \<^verbatim>\<open>identify_expired_data\<close> (lines 75-80).\<close>

record expired_info =
  count :: int
  oldest_record :: "timestamp option"
  newest_expired :: "timestamp option"
  retention_days :: nat

text \<open>The dictionary appended per hold by \<^verbatim>\<open>check_legal_holds\<close> (lines 116-121).\<close>

record hold_info =
  record_id :: nat
  reason :: string
  created_by :: string
  hold_created_at :: timestamp

text \<open>
  The right-hand side of a \<^verbatim>\<open>SET\<close> clause of the anonymization statement: the
  synthesized address \<^verbatim>\<open>'anonymized_' || generate_random_uuid() || '@deleted.local'\<close>
  or a string literal.
\<close>

datatype set_expr = RandomEmail | Literal string

text \<open>The text of the \<^verbatim>\<open>UPDATE\<close> statement (lines 175-182), by its parameters.\<close>

datatype update_sql = UpdateSql string "(string \<times> set_expr) list" nat

text \<open>The dictionary stored per table by \<^verbatim>\<open>anonymize_before_deletion\<close>.\<close>

record anonymization_result =
  anonymized :: bool
  anon_fields :: "string list option"
  sql_executed :: "update_sql option"
  anon_error :: "py_error option"

text \<open>
  The dictionary stored per table by \<^verbatim>\<open>execute_data_deletion\<close>: the keys
  \<^verbatim>\<open>expected_deletions\<close>, \<^verbatim>\<open>actual_deletions\<close> and \<^verbatim>\<open>remaining_records\<close>
  are absent from a failure entry and \<^verbatim>\<open>error\<close> from the others.
\<close>

record deletion_result =
  expected_deletions :: "int option"
  actual_deletions :: "int option"
  success :: "bool option"
  remaining_records :: "int option"
  error :: "py_error option"

text \<open>An element of \<^verbatim>\<open>manifest['tables_affected']\<close> (lines 221-228).\<close>

record table_info =
  ti_table_name :: string
  ti_records_to_delete :: int
  ti_retention_period_days :: nat
  ti_oldest_record :: "timestamp option"
  ti_newest_expired :: "timestamp option"
  ti_anonymized_before_deletion :: bool

record manifest =
  deletion_date :: timestamp
  deletion_reason :: string
  tables_affected :: "table_info list"
  total_records_to_delete :: int
  anonymization_performed :: bool
  legal_holds_checked :: bool
  manifest_id :: "nat option"

text \<open>A row of \<^verbatim>\<open>data_deletion_manifests\<close>.\<close>

record manifest_row =
  dm_id :: nat
  dm_deletion_date :: timestamp
  dm_manifest_data :: manifest
  dm_total_records :: int
  dm_status :: string
  dm_deletion_results :: "(string \<times> deletion_result) list option"
  dm_actual_deletions :: "int option"
  dm_completed_at :: "timestamp option"

record process_summary =
  total_tables_processed :: nat
  total_records_deleted :: int
  successful_deletions :: nat
  failed_deletions :: nat

record legal_holds_summary =
  tables_with_holds :: nat
  total_holds :: nat

record report =
  report_date :: timestamp
  summary :: process_summary
  holds_summary :: legal_holds_summary
  compliance_status :: string
  report_manifest_id :: "nat option"
  detailed_results :: "(string \<times> deletion_result) list"

text \<open>A row of \<^verbatim>\<open>compliance_reports\<close>.\<close>

record report_row =
  cr_report_type :: string
  cr_report_date :: timestamp
  cr_report_data :: report
  cr_status :: string

record notification =
  subject :: string
  n_summary :: process_summary
  n_compliance_status :: string
  n_report_date :: timestamp
  n_manifest_id :: "nat option"

record store =
  tables :: "string \<Rightarrow> data_row list"
  legal_holds :: "legal_hold_row list"
  data_deletion_manifests :: "manifest_row list"
  manifest_seq :: nat
  compliance_reports :: "report_row list"
  stmt_no :: nat
  db_now :: "nat \<Rightarrow> timestamp"
  db_fails :: "nat \<Rightarrow> bool"
  random_uuid :: "nat \<Rightarrow> nat \<Rightarrow> string"
  py_now :: "nat \<Rightarrow> nat \<Rightarrow> timestamp"

subsection \<open>Statements\<close>

definition NOW :: "store \<Rightarrow> timestamp" where
  "NOW s = db_now s (stmt_no s)"

definition raises :: "store \<Rightarrow> bool" where
  "raises s = db_fails s (stmt_no s)"

definition executed :: "store \<Rightarrow> store" where
  "executed s = s\<lparr>stmt_no := Suc (stmt_no s)\<rparr>"

definition datetime_now :: "store \<Rightarrow> nat \<Rightarrow> timestamp" where
  "datetime_now s k = py_now s (stmt_no s) k"

text \<open>\<^verbatim>\<open>created_at < NOW() - INTERVAL '{retention_days} days'\<close>, with \<open>now\<close> for \<^verbatim>\<open>NOW()\<close>.\<close>

definition is_expired :: "timestamp \<Rightarrow> nat \<Rightarrow> data_row \<Rightarrow> bool" where
  "is_expired now days r = (created_at r < now - int days * 86400)"

fun min_ts :: "timestamp list \<Rightarrow> timestamp option" where
  "min_ts [] = None"
| "min_ts (x # xs) = Some (fold min xs x)"

fun max_ts :: "timestamp list \<Rightarrow> timestamp option" where
  "max_ts [] = None"
| "max_ts (x # xs) = Some (fold max xs x)"

text \<open>
  Lines 64-70: \<^verbatim>\<open>SELECT COUNT(*), MIN(created_at), MAX(created_at) FROM t WHERE ...\<close>.
  An aggregate query returns exactly one row, which \<^verbatim>\<open>get_first\<close> hands back.
\<close>

definition scan_sql ::
    "string \<Rightarrow> nat \<Rightarrow> store \<Rightarrow> (py_error + int \<times> timestamp option \<times> timestamp option) \<times> store" where
  "scan_sql t days s =
     (if raises s then (Inl (DatabaseError (stmt_no s)), executed s)
      else
        let xs = map created_at (filter (is_expired (NOW s) days) (tables s t))
        in (Inr (int (length xs), min_ts xs, max_ts xs), executed s))"

text \<open>
  Lines 101-106: the rows of \<^verbatim>\<open>legal_holds\<close> with
  \<^verbatim>\<open>status = 'ACTIVE' AND (expiration_date IS NULL OR expiration_date > NOW())\<close>,
  projected to the five selected columns. Only \<^verbatim>\<open>expiration_date\<close> is read as
  nullable; the task calls \<^verbatim>\<open>isoformat()\<close> on \<^verbatim>\<open>created_at\<close> unguarded.
\<close>

definition hold_selected :: "timestamp \<Rightarrow> legal_hold_row \<Rightarrow> bool" where
  "hold_selected now h =
     (lh_status h = ''ACTIVE'' \<and>
      (case lh_expiration_date h of None \<Rightarrow> True | Some e \<Rightarrow> e > now))"

definition holds_sql ::
    "store \<Rightarrow> (py_error + (string \<times> nat \<times> string \<times> string \<times> timestamp) list) \<times> store" where
  "holds_sql s =
     (if raises s then (Inl (DatabaseError (stmt_no s)), executed s)
      else
        (Inr (map (\<lambda>h. (lh_table_name h, lh_record_id h, lh_hold_reason h, lh_created_by h,
                        lh_created_at h))
                (filter (hold_selected (NOW s)) (legal_holds s))),
         executed s))"

section \<open>The tasks\<close>

subsection \<open>\<^verbatim>\<open>identify_expired_data\<close>\<close>

definition retention_policies :: "(string \<times> nat) list" where
  "retention_policies =
     [(''user_activity_logs'', 90), (''session_data'', 30), (''audit_logs'', 2555),
      (''user_profiles'', 1095), (''transaction_logs'', 2555), (''marketing_data'', 365),
      (''support_tickets'', 1095), (''backup_data'', 365), (''temp_files'', 7),
      (''cache_data'', 1)]"

text \<open>
  The loop of lines 61-85 over \<open>retention_policies.items()\<close>, with the dictionary
  \<open>expired_data\<close> and the database threaded through. An exception of the query is
  caught and logged: the table gets no entry.
\<close>

fun scan_policies ::
    "(string \<times> nat) list \<Rightarrow> (string \<times> expired_info) list \<Rightarrow> store
       \<Rightarrow> (string \<times> expired_info) list \<times> store" where
  "scan_policies [] expired_data s = (expired_data, s)"
| "scan_policies ((table_name, days) # rest) expired_data s =
     (case scan_sql table_name days s of
        (Inl e, s') \<Rightarrow> scan_policies rest expired_data s'
      | (Inr (result0, result1, result2), s') \<Rightarrow>
          if result0 > 0
          then scan_policies rest
                 (AList.update table_name
                    \<lparr>count = result0, oldest_record = result1, newest_expired = result2,
                     retention_days = days\<rparr> expired_data) s'
          else scan_policies rest expired_data s')"

definition identify_expired_data :: "store \<Rightarrow> (string \<times> expired_info) list \<times> store" where
  "identify_expired_data s = scan_policies retention_policies [] s"

subsection \<open>\<^verbatim>\<open>check_legal_holds\<close>\<close>

text \<open>
  The loop of lines 110-121 over the selected rows \<open>(table_name, record_id, reason,
  created_by, created_at)\<close>: a table seen for the first time gets an empty list, then
  the hold is appended to the table's list. The dictionary \<^verbatim>\<open>legal_holds\<close> of the
  source is \<open>holds_by_table\<close> here (the table of the database has the name).
\<close>

fun group_holds ::
    "(string \<times> nat \<times> string \<times> string \<times> timestamp) list \<Rightarrow> (string \<times> hold_info list) list
       \<Rightarrow> (string \<times> hold_info list) list" where
  "group_holds [] holds_by_table = holds_by_table"
| "group_holds ((table_name, rid, why, who, at) # holds) holds_by_table =
     group_holds holds
       (AList.map_entry table_name
          (\<lambda>l. l @ [\<lparr>record_id = rid, reason = why, created_by = who,
                      hold_created_at = at\<rparr>])
          (if table_name \<notin> fst ` set holds_by_table
           then AList.update table_name [] holds_by_table else holds_by_table))"

text \<open>The loop of lines 126-131: a table with an entry in \<open>legal_holds\<close> is skipped.\<close>

fun filter_expired ::
    "(string \<times> expired_info) list \<Rightarrow> (string \<times> hold_info list) list
       \<Rightarrow> (string \<times> expired_info) list \<Rightarrow> (string \<times> expired_info) list" where
  "filter_expired [] holds_by_table filtered_expired_data = filtered_expired_data"
| "filter_expired ((table_name, data) # rest) holds_by_table filtered_expired_data =
     (if table_name \<in> fst ` set holds_by_table
      then filter_expired rest holds_by_table filtered_expired_data
      else filter_expired rest holds_by_table
             (AList.update table_name data filtered_expired_data))"

text \<open>
  The query is outside any \<^verbatim>\<open>try\<close>: when it raises, the task raises. The task
  pushes \<open>filtered_expired_data\<close> and \<open>legal_holds\<close>; both are returned here.
\<close>

definition check_legal_holds ::
    "(string \<times> expired_info) list \<Rightarrow> store
       \<Rightarrow> (py_error + (string \<times> expired_info) list \<times> (string \<times> hold_info list) list) \<times> store" where
  "check_legal_holds expired_data s =
     (case holds_sql s of
        (Inl e, s') \<Rightarrow> (Inl e, s')
      | (Inr holds, s') \<Rightarrow>
          (let holds_by_table = group_holds holds []
           in (Inr (filter_expired expired_data holds_by_table [], holds_by_table), s')))"

subsection \<open>\<^verbatim>\<open>anonymize_before_deletion\<close>\<close>

definition anonymization_config :: "(string \<times> string list) list" where
  "anonymization_config =
     [(''user_profiles'', [''email'', ''first_name'', ''last_name'', ''phone'', ''address'']),
      (''user_activity_logs'', [''user_id'', ''ip_address'', ''user_agent'']),
      (''transaction_logs'', [''user_id'', ''payment_method'', ''billing_address'']),
      (''support_tickets'', [''user_id'', ''email'', ''phone'', ''description''])]"

text \<open>Lines 161-171: the \<^verbatim>\<open>SET\<close> clause built for one field.\<close>

definition set_clause :: "string \<Rightarrow> string \<times> set_expr" where
  "set_clause field =
     (if field \<in> set [''email''] then (field, RandomEmail)
      else if field \<in> set [''first_name'', ''last_name''] then (field, Literal ''DELETED'')
      else if field \<in> set [''phone''] then (field, Literal ''000-000-0000'')
      else if field \<in> set [''ip_address''] then (field, Literal ''0.0.0.0'')
      else (field, Literal ''ANONYMIZED''))"

fun eval_set_expr :: "string \<Rightarrow> set_expr \<Rightarrow> string" where
  "eval_set_expr uuid RandomEmail = ''anonymized_'' @ uuid @ ''@deleted.local''"
| "eval_set_expr uuid (Literal v) = v"

definition apply_set_clauses ::
    "string \<Rightarrow> (string \<times> set_expr) list \<Rightarrow> (string \<rightharpoonup> string) \<Rightarrow> (string \<rightharpoonup> string)" where
  "apply_set_clauses uuid set_clauses cols =
     fold (\<lambda>(field, e) c. c(field \<mapsto> eval_set_expr uuid e)) set_clauses cols"

text \<open>
  Lines 175-182: the \<^verbatim>\<open>UPDATE\<close> rewrites, in place, the rows with
  \<^verbatim>\<open>created_at < NOW() - INTERVAL '{retention_days} days' AND anonymized_at IS NULL\<close>,
  and stamps them with \<^verbatim>\<open>anonymized_at = NOW()\<close> and the reason.
\<close>

definition anonymize_row ::
    "timestamp \<Rightarrow> string \<Rightarrow> (string \<times> set_expr) list \<Rightarrow> data_row \<Rightarrow> data_row" where
  "anonymize_row now uuid set_clauses r =
     r\<lparr>columns := apply_set_clauses uuid set_clauses (columns r),
       anonymized_at := Some now,
       anonymization_reason := Some ''DATA_RETENTION_POLICY''\<rparr>"

definition anonymize_sql ::
    "string \<Rightarrow> (string \<times> set_expr) list \<Rightarrow> nat \<Rightarrow> store \<Rightarrow> (py_error + unit) \<times> store" where
  "anonymize_sql t set_clauses days s =
     (if raises s then (Inl (DatabaseError (stmt_no s)), executed s)
      else
        (Inr (),
         executed
           (s\<lparr>tables := (tables s)
                 (t := map (\<lambda>(i, r).
                              if is_expired (NOW s) days r \<and> anonymized_at r = None
                              then anonymize_row (NOW s) (random_uuid s (stmt_no s) i) set_clauses r
                              else r)
                         (enumerate 0 (tables s t)))\<rparr>)))"

text \<open>
  The loop of lines 154-199 over \<open>filtered_data.items()\<close>. An exception of the
  \<^verbatim>\<open>UPDATE\<close> is caught: the table gets a failure entry and the loop goes on.
\<close>

fun anonymize_tables ::
    "(string \<times> expired_info) list \<Rightarrow> (string \<times> anonymization_result) list \<Rightarrow> store
       \<Rightarrow> (string \<times> anonymization_result) list \<times> store" where
  "anonymize_tables [] anonymization_results s = (anonymization_results, s)"
| "anonymize_tables ((table_name, data) # rest) anonymization_results s =
     (case map_of anonymization_config table_name of
        None \<Rightarrow> anonymize_tables rest anonymization_results s
      | Some fields_to_anonymize \<Rightarrow>
          let set_clauses = map set_clause fields_to_anonymize in
          if set_clauses \<noteq> []
          then
            (case anonymize_sql table_name set_clauses (retention_days data) s of
               (Inl e, s') \<Rightarrow>
                 anonymize_tables rest
                   (AList.update table_name
                      \<lparr>anonymized = False, anon_fields = None, sql_executed = None,
                       anon_error = Some e\<rparr> anonymization_results) s'
             | (Inr _, s') \<Rightarrow>
                 anonymize_tables rest
                   (AList.update table_name
                      \<lparr>anonymized = True, anon_fields = Some fields_to_anonymize,
                       sql_executed =
                         Some (UpdateSql table_name set_clauses (retention_days data)),
                       anon_error = None\<rparr> anonymization_results) s')
          else anonymize_tables rest anonymization_results s)"

definition anonymize_before_deletion ::
    "(string \<times> expired_info) list \<Rightarrow> store \<Rightarrow> (string \<times> anonymization_result) list \<times> store" where
  "anonymize_before_deletion filtered_data s = anonymize_tables filtered_data [] s"

subsection \<open>\<^verbatim>\<open>create_deletion_manifest\<close>\<close>

text \<open>The loop of lines 220-231 over \<open>filtered_data.items()\<close>.\<close>

fun manifest_tables ::
    "(string \<times> expired_info) list \<Rightarrow> (string \<times> anonymization_result) list \<Rightarrow> manifest
       \<Rightarrow> manifest" where
  "manifest_tables [] anonymization_results m = m"
| "manifest_tables ((table_name, data) # rest) anonymization_results m =
     manifest_tables rest anonymization_results
       (m\<lparr>tables_affected := tables_affected m @
             [\<lparr>ti_table_name = table_name,
               ti_records_to_delete = count data,
               ti_retention_period_days = retention_days data,
               ti_oldest_record = oldest_record data,
               ti_newest_expired = newest_expired data,
               ti_anonymized_before_deletion =
                 (table_name \<in> fst ` set anonymization_results)\<rparr>],
          total_records_to_delete := total_records_to_delete m + count data\<rparr>)"

text \<open>
  Lines 236-251: \<^verbatim>\<open>INSERT INTO data_deletion_manifests (deletion_date, manifest_data,
  total_records, status) VALUES (...) RETURNING id\<close>; the database assigns the id from
  its sequence and the other columns are null.
\<close>

definition insert_manifest_sql ::
    "timestamp \<Rightarrow> manifest \<Rightarrow> int \<Rightarrow> string \<Rightarrow> store \<Rightarrow> (py_error + nat) \<times> store" where
  "insert_manifest_sql date data total_records status s =
     (if raises s then (Inl (DatabaseError (stmt_no s)), executed s)
      else
        (Inr (manifest_seq s),
         executed
           (s\<lparr>data_deletion_manifests := data_deletion_manifests s @
                 [\<lparr>dm_id = manifest_seq s, dm_deletion_date = date, dm_manifest_data = data,
                   dm_total_records = total_records, dm_status = status, dm_deletion_results = None,
                   dm_actual_deletions = None, dm_completed_at = None\<rparr>],
              manifest_seq := Suc (manifest_seq s)\<rparr>)))"

text \<open>The insert is outside any \<^verbatim>\<open>try\<close>: when it raises, the task raises.\<close>

definition create_deletion_manifest ::
    "(string \<times> expired_info) list \<Rightarrow> (string \<times> anonymization_result) list \<Rightarrow> store
       \<Rightarrow> (py_error + manifest) \<times> store" where
  "create_deletion_manifest filtered_data anonymization_results s =
     (let manifest =
            manifest_tables filtered_data anonymization_results
              \<lparr>deletion_date = datetime_now s 0,
               deletion_reason = ''DATA_RETENTION_POLICY'',
               tables_affected = [],
               total_records_to_delete = 0,
               anonymization_performed = (anonymization_results \<noteq> []),
               legal_holds_checked = True,
               manifest_id = None\<rparr>
      in (case insert_manifest_sql (datetime_now s 1) manifest (total_records_to_delete manifest)
                 ''PENDING'' s of
            (Inl e, s') \<Rightarrow> (Inl e, s')
          | (Inr new_id, s') \<Rightarrow> (Inr (manifest\<lparr>manifest_id := Some new_id\<rparr>), s')))"

subsection \<open>\<^verbatim>\<open>execute_data_deletion\<close>\<close>

text \<open>Lines 280-283: \<^verbatim>\<open>SELECT COUNT(*) FROM t WHERE created_at < NOW() - INTERVAL ...\<close>.\<close>

definition count_sql :: "string \<Rightarrow> nat \<Rightarrow> store \<Rightarrow> (py_error + int) \<times> store" where
  "count_sql t days s =
     (if raises s then (Inl (DatabaseError (stmt_no s)), executed s)
      else (Inr (int (length (filter (is_expired (NOW s) days) (tables s t)))), executed s))"

text \<open>Lines 274-277: \<^verbatim>\<open>DELETE FROM t WHERE created_at < NOW() - INTERVAL ...\<close>.\<close>

definition delete_sql :: "string \<Rightarrow> nat \<Rightarrow> store \<Rightarrow> (py_error + unit) \<times> store" where
  "delete_sql t days s =
     (if raises s then (Inl (DatabaseError (stmt_no s)), executed s)
      else
        (Inr (),
         executed
           (s\<lparr>tables := (tables s)
                 (t := filter (\<lambda>r. \<not> is_expired (NOW s) days r) (tables s t))\<rparr>)))"

text \<open>\<open>r.get(key, default)\<close> on a dictionary whose key may be absent.\<close>

definition get :: "'a option \<Rightarrow> 'a \<Rightarrow> 'a" where
  "get v dflt = (case v of None \<Rightarrow> dflt | Some x \<Rightarrow> x)"

definition failure :: "py_error \<Rightarrow> deletion_result" where
  "failure e =
     \<lparr>expected_deletions = None, actual_deletions = None, success = Some False,
      remaining_records = None, error = Some e\<rparr>"

text \<open>
  The body of the loop of lines 269-317 for one table: the entry it stores in
  \<open>deletion_results\<close> and the amount it adds to \<open>total_deleted\<close>. Any exception
  inside the \<^verbatim>\<open>try\<close> is caught and recorded as a failure entry.
\<close>

definition delete_expired ::
    "string \<Rightarrow> expired_info \<Rightarrow> store \<Rightarrow> (deletion_result \<times> int) \<times> store" where
  "delete_expired table_name data s =
     (case count_sql table_name (retention_days data) s of
        (Inl e, s1) \<Rightarrow> ((failure e, 0), s1)
      | (Inr records_to_delete, s1) \<Rightarrow>
          if records_to_delete > 0
          then
            (case delete_sql table_name (retention_days data) s1 of
               (Inl e, s2) \<Rightarrow> ((failure e, 0), s2)
             | (Inr _, s2) \<Rightarrow>
                 (case count_sql table_name (retention_days data) s2 of
                    (Inl e, s3) \<Rightarrow> ((failure e, 0), s3)
                  | (Inr remaining_count, s3) \<Rightarrow>
                      let actual_deleted = records_to_delete - remaining_count
                      in ((\<lparr>expected_deletions = Some records_to_delete,
                             actual_deletions = Some actual_deleted,
                             success = Some (remaining_count = 0),
                             remaining_records = Some remaining_count,
                             error = None\<rparr>, actual_deleted), s3)))
          else
            ((\<lparr>expected_deletions = Some 0, actual_deletions = Some 0, success = Some True,
               remaining_records = Some 0, error = None\<rparr>, 0), s1))"

fun delete_tables ::
    "(string \<times> expired_info) list \<Rightarrow> (string \<times> deletion_result) list \<Rightarrow> int \<Rightarrow> store
       \<Rightarrow> ((string \<times> deletion_result) list \<times> int) \<times> store" where
  "delete_tables [] deletion_results total_deleted s = ((deletion_results, total_deleted), s)"
| "delete_tables ((table_name, data) # rest) deletion_results total_deleted s =
     (case delete_expired table_name data s of
        ((result, deleted), s') \<Rightarrow>
          delete_tables rest (AList.update table_name result deletion_results)
            (total_deleted + deleted) s')"

text \<open>Line 326.\<close>

definition manifest_status :: "(string \<times> deletion_result) list \<Rightarrow> string" where
  "manifest_status deletion_results =
     (if list_all (\<lambda>r. get (success r) False) (map snd deletion_results)
      then ''COMPLETED'' else ''PARTIAL'')"

text \<open>
  Lines 320-324: \<^verbatim>\<open>UPDATE data_deletion_manifests SET status = %s, deletion_results = %s,
  actual_deletions = %s, completed_at = NOW() WHERE id = %s\<close>.
\<close>

definition update_manifest_sql ::
    "string \<Rightarrow> (string \<times> deletion_result) list \<Rightarrow> int \<Rightarrow> nat \<Rightarrow> store
       \<Rightarrow> (py_error + unit) \<times> store" where
  "update_manifest_sql status results total_deleted row_id s =
     (if raises s then (Inl (DatabaseError (stmt_no s)), executed s)
      else
        (Inr (),
         executed
           (s\<lparr>data_deletion_manifests :=
                 map (\<lambda>r. if dm_id r = row_id
                          then r\<lparr>dm_status := status,
                                 dm_deletion_results := Some results,
                                 dm_actual_deletions := Some total_deleted,
                                 dm_completed_at := Some (NOW s)\<rparr>
                          else r)
                   (data_deletion_manifests s)\<rparr>)))"

text \<open>
  The update is outside any \<^verbatim>\<open>try\<close>: when it raises, the task raises and pushes
  nothing. \<^verbatim>\<open>manifest['manifest_id']\<close> raises \<^verbatim>\<open>KeyError\<close> on a manifest without id.
\<close>

definition execute_data_deletion ::
    "(string \<times> expired_info) list \<Rightarrow> manifest \<Rightarrow> store
       \<Rightarrow> (py_error + (string \<times> deletion_result) list) \<times> store" where
  "execute_data_deletion filtered_data manifest s =
     (case delete_tables filtered_data [] 0 s of
        ((deletion_results, total_deleted), s1) \<Rightarrow>
          (case manifest_id manifest of
             None \<Rightarrow> (Inl (KeyError ''manifest_id''), s1)
           | Some row_id \<Rightarrow>
               (case update_manifest_sql (manifest_status deletion_results) deletion_results
                       total_deleted row_id s1 of
                  (Inl e, s2) \<Rightarrow> (Inl e, s2)
                | (Inr _, s2) \<Rightarrow> (Inr deletion_results, s2))))"

subsection \<open>\<^verbatim>\<open>generate_compliance_report\<close> and \<^verbatim>\<open>send_compliance_notification\<close>\<close>

text \<open>Line 361.\<close>

definition report_status :: "(string \<times> deletion_result) list \<Rightarrow> string" where
  "report_status deletion_results =
     (if list_all (\<lambda>r. get (success r) False) (map snd deletion_results)
      then ''COMPLIANT'' else ''NEEDS_ATTENTION'')"

text \<open>Lines 369-383: \<^verbatim>\<open>INSERT INTO compliance_reports (...) VALUES (...)\<close>.\<close>

definition insert_report_sql ::
    "string \<Rightarrow> timestamp \<Rightarrow> report \<Rightarrow> string \<Rightarrow> store \<Rightarrow> (py_error + unit) \<times> store" where
  "insert_report_sql report_type date data status s =
     (if raises s then (Inl (DatabaseError (stmt_no s)), executed s)
      else
        (Inr (),
         executed
           (s\<lparr>compliance_reports := compliance_reports s @
                 [\<lparr>cr_report_type = report_type, cr_report_date = date,
                   cr_report_data = data, cr_status = status\<rparr>]\<rparr>)))"

definition generate_compliance_report ::
    "manifest \<Rightarrow> (string \<times> deletion_result) list \<Rightarrow> (string \<times> hold_info list) list \<Rightarrow> store
       \<Rightarrow> (py_error + report) \<times> store" where
  "generate_compliance_report manifest deletion_results holds_by_table s =
     (case manifest_id manifest of
        None \<Rightarrow> (Inl (KeyError ''manifest_id''), s)
      | Some row_id \<Rightarrow>
          let values = map snd deletion_results;
              report =
                \<lparr>report_date = datetime_now s 0,
                 summary =
                   \<lparr>total_tables_processed = length deletion_results,
                    total_records_deleted =
                      sum_list (map (\<lambda>r. get (actual_deletions r) 0) values),
                    successful_deletions =
                      length (filter (\<lambda>r. get (success r) False) values),
                    failed_deletions =
                      length (filter (\<lambda>r. \<not> get (success r) True) values)\<rparr>,
                 holds_summary =
                   \<lparr>tables_with_holds = length holds_by_table,
                    total_holds = sum_list (map (\<lambda>holds. length holds) (map snd holds_by_table))\<rparr>,
                 compliance_status = report_status deletion_results,
                 report_manifest_id = Some row_id,
                 detailed_results = deletion_results\<rparr>
          in (case insert_report_sql ''DATA_RETENTION'' (datetime_now s 1) report
                     (compliance_status report) s of
                (Inl e, s') \<Rightarrow> (Inl e, s')
              | (Inr _, s') \<Rightarrow> (Inr report, s')))"

definition send_compliance_notification :: "report \<Rightarrow> notification" where
  "send_compliance_notification report =
     \<lparr>subject = ''Data Retention Process Completed - '' @ compliance_status report,
      n_summary = summary report,
      n_compliance_status = compliance_status report,
      n_report_date = report_date report,
      n_manifest_id = report_manifest_id report\<rparr>"

section \<open>The DAG run\<close>

text \<open>
  \<^verbatim>\<open>default_args\<close> gives every task \<^verbatim>\<open>'retries': 2\<close>: a task that raises is run
  again, up to two more times, on the database as the failed attempt left it. A task
  pushes its results only when it returns.
\<close>

definition retries :: nat where
  "retries = 2"

fun with_retries ::
    "nat \<Rightarrow> (store \<Rightarrow> (py_error + 'a) \<times> store) \<Rightarrow> store \<Rightarrow> (py_error + 'a) \<times> store" where
  "with_retries 0 task s = task s"
| "with_retries (Suc n) task s =
     (case task s of
        (Inl e, s') \<Rightarrow> with_retries n task s'
      | (Inr v, s') \<Rightarrow> (Inr v, s'))"

text \<open>The values the tasks of one run have pushed; \<open>None\<close> for a key never pushed.\<close>

record xcom =
  x_expired_data :: "(string \<times> expired_info) list option"
  x_filtered_expired_data :: "(string \<times> expired_info) list option"
  x_legal_holds :: "(string \<times> hold_info list) list option"
  x_anonymization_results :: "(string \<times> anonymization_result) list option"
  x_deletion_manifest :: "manifest option"
  x_deletion_results :: "(string \<times> deletion_result) list option"
  x_report :: "report option"
  x_notification :: "notification option"

definition no_xcom :: xcom where
  "no_xcom =
     \<lparr>x_expired_data = None, x_filtered_expired_data = None, x_legal_holds = None,
      x_anonymization_results = None, x_deletion_manifest = None, x_deletion_results = None,
      x_report = None, x_notification = None\<rparr>"

text \<open>
  Lines 474-476: \<^verbatim>\<open>identify_expired_data >> check_legal_holds >>
  anonymize_before_deletion >> create_deletion_manifest >> execute_data_deletion >>
  generate_compliance_report >> send_compliance_notification\<close>. With the default trigger
  rule a task runs only when its upstream task has succeeded, so the run stops at the
  first task that fails after its retries. The branch \<^verbatim>\<open>execute_data_deletion >>
  cleanup_temp_files >> vacuum_databases\<close> (a shell command and \<^verbatim>\<open>VACUUM\<close>) touches no
  row of the tables above and is left out.
\<close>

definition run_dag :: "store \<Rightarrow> xcom \<times> store" where
  "run_dag s0 =
     (case identify_expired_data s0 of (expired_data, s1) \<Rightarrow>
     (let x1 = no_xcom\<lparr>x_expired_data := Some expired_data\<rparr> in
     (case with_retries retries (check_legal_holds expired_data) s1 of
        (Inl e, s2) \<Rightarrow> (x1, s2)
      | (Inr (filtered_data, holds_by_table), s2) \<Rightarrow>
     (let x2 = x1\<lparr>x_filtered_expired_data := Some filtered_data,
                 x_legal_holds := Some holds_by_table\<rparr> in
     (case anonymize_before_deletion filtered_data s2 of (anonymization_results, s3) \<Rightarrow>
     (let x3 = x2\<lparr>x_anonymization_results := Some anonymization_results\<rparr> in
     (case with_retries retries
             (create_deletion_manifest filtered_data anonymization_results) s3 of
        (Inl e, s4) \<Rightarrow> (x3, s4)
      | (Inr manifest, s4) \<Rightarrow>
     (let x4 = x3\<lparr>x_deletion_manifest := Some manifest\<rparr> in
     (case with_retries retries (execute_data_deletion filtered_data manifest) s4 of
        (Inl e, s5) \<Rightarrow> (x4, s5)
      | (Inr deletion_results, s5) \<Rightarrow>
     (let x5 = x4\<lparr>x_deletion_results := Some deletion_results\<rparr> in
     (case with_retries retries
             (generate_compliance_report manifest deletion_results holds_by_table) s5 of
        (Inl e, s6) \<Rightarrow> (x5, s6)
      | (Inr report, s6) \<Rightarrow>
          (x5\<lparr>x_report := Some report,
              x_notification := Some (send_compliance_notification report)\<rparr>,
           s6))))))))))))"

section \<open>Notions used to state the properties\<close>

text \<open>
  The categories with at least one hold that the query of \<^verbatim>\<open>check_legal_holds\<close>
  selects when \<^verbatim>\<open>NOW()\<close> is \<open>now\<close>.
\<close>

definition held_categories :: "timestamp \<Rightarrow> legal_hold_row list \<Rightarrow> string set" where
  "held_categories now hs = lh_table_name ` set (filter (hold_selected now) hs)"

text \<open>
  The columns of a row of \<^verbatim>\<open>data_deletion_manifests\<close> that are written when the
  row is inserted.
\<close>

definition fixed_part :: "manifest_row \<Rightarrow> nat \<times> timestamp \<times> manifest \<times> int" where
  "fixed_part row = (dm_id row, dm_deletion_date row, dm_manifest_data row, dm_total_records row)"

text \<open>Two databases that differ at most in the rows of the tables and the statement count.\<close>

definition rows_only :: "store \<Rightarrow> store \<Rightarrow> bool" where
  "rows_only s s' =
     (legal_holds s' = legal_holds s \<and>
      data_deletion_manifests s' = data_deletion_manifests s \<and>
      manifest_seq s' = manifest_seq s \<and>
      compliance_reports s' = compliance_reports s \<and>
      db_now s' = db_now s \<and> db_fails s' = db_fails s \<and>
      random_uuid s' = random_uuid s \<and> py_now s' = py_now s)"

text \<open>
  What one scan statement finds in the rows of a table when \<^verbatim>\<open>NOW()\<close> is \<open>now\<close>,
  and what the \<open>n\<close>-th statement of the database finds in table \<open>t\<close>.
\<close>

definition entry_at :: "timestamp \<Rightarrow> data_row list \<Rightarrow> nat \<Rightarrow> expired_info option" where
  "entry_at now rows d =
     (let xs = map created_at (filter (is_expired now d) rows)
      in if xs = [] then None
         else Some \<lparr>count = int (length xs), oldest_record = min_ts xs,
                    newest_expired = max_ts xs, retention_days = d\<rparr>)"

definition scan_entry :: "store \<Rightarrow> nat \<Rightarrow> string \<Rightarrow> nat \<Rightarrow> expired_info option" where
  "scan_entry s n t d = (if db_fails s n then None else entry_at (db_now s n) (tables s t) d)"

text \<open>
  \<open>profiled fd\<close>: the categories of \<open>fd\<close> with an entry in \<open>anonymization_config\<close>,
  in the order of \<open>fd\<close>; the anonymizer runs one \<^verbatim>\<open>UPDATE\<close> for each, in this order.
  \<open>anonymization_entry s n t flds data\<close>: what the anonymizer records for table \<open>t\<close>
  when its \<^verbatim>\<open>UPDATE\<close> is the \<open>n\<close>-th statement of the database (lines 184-197): the
  failure entry with the exception when the statement raises, the success entry
  otherwise.
\<close>

definition profiled :: "(string \<times> expired_info) list \<Rightarrow> (string \<times> expired_info) list" where
  "profiled fd = filter (\<lambda>p. fst p \<in> fst ` set anonymization_config) fd"

definition anonymization_entry ::
    "store \<Rightarrow> nat \<Rightarrow> string \<Rightarrow> string list \<Rightarrow> expired_info \<Rightarrow> anonymization_result" where
  "anonymization_entry s n t flds data =
     (if db_fails s n
      then \<lparr>anonymized = False, anon_fields = None, sql_executed = None,
            anon_error = Some (DatabaseError n)\<rparr>
      else \<lparr>anonymized = True, anon_fields = Some flds,
            sql_executed = Some (UpdateSql t (map set_clause flds) (retention_days data)),
            anon_error = None\<rparr>)"

text \<open>
  \<open>marked_only xs ys\<close>: the rows \<open>ys\<close> are the rows \<open>xs\<close>, position by position, but
  for rows without the anonymization marker that have got it (and kept their creation
  time). \<open>all_marked now d xs\<close>: every row of \<open>xs\<close> that is expired when \<^verbatim>\<open>NOW()\<close> is
  \<open>now\<close> carries the marker.
\<close>

definition marked_only :: "data_row list \<Rightarrow> data_row list \<Rightarrow> bool" where
  "marked_only xs ys =
     (length ys = length xs \<and>
      (\<forall>i < length xs.
         ys ! i = xs ! i \<or>
         (anonymized_at (xs ! i) = None \<and> anonymized_at (ys ! i) \<noteq> None \<and>
          created_at (ys ! i) = created_at (xs ! i))))"

definition all_marked :: "timestamp \<Rightarrow> nat \<Rightarrow> data_row list \<Rightarrow> bool" where
  "all_marked now d xs = (\<forall>r \<in> set xs. is_expired now d r \<longrightarrow> anonymized_at r \<noteq> None)"

subsection \<open>Example databases\<close>

definition plain_row :: "timestamp \<Rightarrow> data_row" where
  "plain_row t =
     \<lparr>created_at = t, anonymized_at = None, anonymization_reason = None,
      columns = [''email'' \<mapsto> ''a@example.org'', ''user_id'' \<mapsto> ''u1'']\<rparr>"

definition hold_on :: "string \<Rightarrow> string \<Rightarrow> timestamp option \<Rightarrow> legal_hold_row" where
  "hold_on t st exp =
     \<lparr>lh_table_name = t, lh_record_id = 7, lh_hold_reason = ''litigation'',
      lh_created_by = ''counsel'', lh_created_at = 1000, lh_status = st,
      lh_expiration_date = exp\<rparr>"

text \<open>
  Two expired rows of \<^verbatim>\<open>session_data\<close>, one expired row of \<^verbatim>\<open>user_profiles\<close>, an
  active hold on \<^verbatim>\<open>user_profiles\<close> and a released one on \<^verbatim>\<open>session_data\<close>; the clock
  stands still and no statement fails.
\<close>

definition store_A :: store where
  "store_A =
     \<lparr>tables = (\<lambda>t. if t = ''session_data'' then [plain_row 0, plain_row 10]
                    else if t = ''user_profiles'' then [plain_row 0] else []),
      legal_holds = [hold_on ''user_profiles'' ''ACTIVE'' None,
                     hold_on ''session_data'' ''RELEASED'' None],
      data_deletion_manifests = [], manifest_seq = 1, compliance_reports = [],
      stmt_no = 0, db_now = (\<lambda>n. 100000000), db_fails = (\<lambda>n. False),
      random_uuid = (\<lambda>n i. ''uuid''), py_now = (\<lambda>n k. 100000000 + int k)\<rparr>"

text \<open>What the run on \<open>store_A\<close> pushes.\<close>

definition results_A :: "(string \<times> deletion_result) list" where
  "results_A =
     [(''session_data'',
       \<lparr>expected_deletions = Some 2, actual_deletions = Some 2, success = Some True,
        remaining_records = Some 0, error = None\<rparr>)]"

definition manifest_A :: manifest where
  "manifest_A =
     \<lparr>deletion_date = 100000000, deletion_reason = ''DATA_RETENTION_POLICY'',
      tables_affected =
        [\<lparr>ti_table_name = ''session_data'', ti_records_to_delete = 2,
          ti_retention_period_days = 30, ti_oldest_record = Some 0,
          ti_newest_expired = Some 10, ti_anonymized_before_deletion = False\<rparr>],
      total_records_to_delete = 2, anonymization_performed = False,
      legal_holds_checked = True, manifest_id = Some 1\<rparr>"

definition report_A :: report where
  "report_A =
     \<lparr>report_date = 100000000,
      summary = \<lparr>total_tables_processed = 1, total_records_deleted = 2,
                 successful_deletions = 1, failed_deletions = 0\<rparr>,
      holds_summary = \<lparr>tables_with_holds = 1, total_holds = 1\<rparr>,
      compliance_status = ''COMPLIANT'', report_manifest_id = Some 1,
      detailed_results = results_A\<rparr>"

text \<open>The scan of \<open>store_A\<close>, what the hold filter keeps of it and the holds it finds.\<close>

definition expired_A :: "(string \<times> expired_info) list" where
  "expired_A =
     [(''session_data'',
       \<lparr>count = 2, oldest_record = Some 0, newest_expired = Some 10, retention_days = 30\<rparr>),
      (''user_profiles'',
       \<lparr>count = 1, oldest_record = Some 0, newest_expired = Some 0, retention_days = 1095\<rparr>)]"

definition filtered_A :: "(string \<times> expired_info) list" where
  "filtered_A =
     [(''session_data'',
       \<lparr>count = 2, oldest_record = Some 0, newest_expired = Some 10, retention_days = 30\<rparr>)]"

definition holds_A :: "(string \<times> hold_info list) list" where
  "holds_A =
     [(''user_profiles'',
       [\<lparr>record_id = 7, reason = ''litigation'', created_by = ''counsel'',
         hold_created_at = 1000\<rparr>])]"



text \<open>
  One expired row in \<^verbatim>\<open>user_profiles\<close> and one in \<^verbatim>\<open>session_data\<close>, no hold; statement
  11, the anonymization \<^verbatim>\<open>UPDATE\<close> of \<^verbatim>\<open>user_profiles\<close>, raises.
\<close>

definition store_F :: store where
  "store_F =
     \<lparr>tables = (\<lambda>t. if t = ''user_profiles'' then [plain_row 0]
                    else if t = ''session_data'' then [plain_row 10] else []),
      legal_holds = [],
      data_deletion_manifests = [], manifest_seq = 1, compliance_reports = [],
      stmt_no = 0, db_now = (\<lambda>n. 100000000), db_fails = (\<lambda>n. n = 11),
      random_uuid = (\<lambda>n i. ''uuid''), py_now = (\<lambda>n k. 100000000 + int k)\<rparr>"

definition anonymization_F :: "(string \<times> anonymization_result) list" where
  "anonymization_F =
     [(''user_profiles'',
       \<lparr>anonymized = False, anon_fields = None, sql_executed = None,
        anon_error = Some (DatabaseError 11)\<rparr>)]"

text \<open>What the hold filter keeps of the scan of \<open>store_F\<close>.\<close>

definition profile_info :: expired_info where
  "profile_info =
     \<lparr>count = 1, oldest_record = Some 0, newest_expired = Some 0, retention_days = 1095\<rparr>"

definition filtered_F :: "(string \<times> expired_info) list" where
  "filtered_F =
     [(''session_data'',
       \<lparr>count = 1, oldest_record = Some 10, newest_expired = Some 10, retention_days = 30\<rparr>),
      (''user_profiles'', profile_info)]"

definition results_F :: "(string \<times> deletion_result) list" where
  "results_F =
     [(''session_data'',
       \<lparr>expected_deletions = Some 1, actual_deletions = Some 1, success = Some True,
        remaining_records = Some 0, error = None\<rparr>),
      (''user_profiles'',
       \<lparr>expected_deletions = Some 1, actual_deletions = Some 1, success = Some True,
        remaining_records = Some 0, error = None\<rparr>)]"

text \<open>
  The tables \<^verbatim>\<open>marketing_data\<close> and \<^verbatim>\<open>backup_data\<close>, both kept 365 days
  (31536000 seconds), hold the same two rows; the clock of the database advances by one
  second per statement and no statement fails. \<open>store_C12\<close> is that database after
  twelve statements.
\<close>

definition store_C :: store where
  "store_C =
     \<lparr>tables = (\<lambda>t. if t = ''marketing_data'' then [plain_row 1000, plain_row 1008]
                    else if t = ''backup_data'' then [plain_row 1000, plain_row 1008] else []),
      legal_holds = [],
      data_deletion_manifests = [], manifest_seq = 1, compliance_reports = [],
      stmt_no = 0, db_now = (\<lambda>n. 31536995 + int n), db_fails = (\<lambda>n. False),
      random_uuid = (\<lambda>n i. ''uuid''), py_now = (\<lambda>n k. 31536995 + int n)\<rparr>"

definition backup_info :: expired_info where
  "backup_info =
     \<lparr>count = 1, oldest_record = Some 1000, newest_expired = Some 1000, retention_days = 365\<rparr>"

definition results_C :: "(string \<times> deletion_result) list" where
  "results_C =
     [(''backup_data'',
       \<lparr>expected_deletions = Some 1, actual_deletions = Some 0, success = Some False,
        remaining_records = Some 1, error = None\<rparr>)]"

definition store_C12 :: store where
  "store_C12 = store_C\<lparr>stmt_no := 12\<rparr>"

text \<open>
  Two rows of \<^verbatim>\<open>user_activity_logs\<close> (kept 90 days, 7776000 seconds) and a clock that
  advances by five seconds per statement: at the first statement only the first row
  is expired, at the second both are. \<open>first_run_G\<close> and \<open>second_run_G\<close> are the
  database after one and after two runs of the anonymizer.
\<close>

definition store_G :: store where
  "store_G =
     \<lparr>tables = (\<lambda>t. if t = ''user_activity_logs'' then [plain_row 1000, plain_row 1008] else []),
      legal_holds = [],
      data_deletion_manifests = [], manifest_seq = 1, compliance_reports = [],
      stmt_no = 0, db_now = (\<lambda>n. 7777005 + 5 * int n), db_fails = (\<lambda>n. False),
      random_uuid = (\<lambda>n i. ''uuid''), py_now = (\<lambda>n k. 7777005 + 5 * int n)\<rparr>"

definition filtered_G :: "(string \<times> expired_info) list" where
  "filtered_G =
     [(''user_activity_logs'',
       \<lparr>count = 1, oldest_record = Some 1000, newest_expired = Some 1000,
        retention_days = 90\<rparr>)]"

definition first_run_G :: store where
  "first_run_G = snd (anonymize_before_deletion filtered_G store_G)"

definition second_run_G :: store where
  "second_run_G = snd (anonymize_before_deletion filtered_G first_run_G)"

text \<open>
  \<open>store_F\<close> without the failure, and so with a clock that stands still and no failing
  statement; the database after one and after two runs of the anonymizer.
\<close>

definition store_H :: store where
  "store_H = store_F\<lparr>db_fails := (\<lambda>n. False)\<rparr>"

definition filtered_H :: "(string \<times> expired_info) list" where
  "filtered_H =
     [(''session_data'',
       \<lparr>count = 1, oldest_record = Some 10, newest_expired = Some 10, retention_days = 30\<rparr>),
      (''user_profiles'',
       \<lparr>count = 1, oldest_record = Some 0, newest_expired = Some 0, retention_days = 1095\<rparr>)]"

definition first_run_H :: store where
  "first_run_H = snd (anonymize_before_deletion filtered_H store_H)"

definition second_run_H :: store where
  "second_run_H = snd (anonymize_before_deletion filtered_H first_run_H)"

text \<open>The same database during an outage that lasts from statement 10 to statement 12.\<close>

definition store_E :: store where
  "store_E = store_A\<lparr>db_fails := (\<lambda>n. 10 \<le> n \<and> n \<le> 12)\<rparr>"

section \<open>Auxiliary facts\<close>

subsection \<open>Retries\<close>

text \<open>
  An invariant that failed attempts preserve holds of the database on which the last
  attempt runs.
\<close>

lemma with_retries_final:
  assumes "with_retries n task s = (r, s')" and "P s"
    and "\<And>s0 e s1. P s0 \<Longrightarrow> task s0 = (Inl e, s1) \<Longrightarrow> P s1"
  shows "\<exists>s0. P s0 \<and> task s0 = (r, s')"
  using assms
proof (induction n arbitrary: s)
  case 0
  then show ?case by auto
next
  case (Suc n)
  show ?case
  proof (cases "task s")
    case (Pair a s1)
    show ?thesis
    proof (cases a)
      case (Inl e)
      with Pair Suc.prems have "with_retries n task s1 = (r, s')" "P s1" by auto
      with Suc.IH Suc.prems(3) show ?thesis by blast
    next
      case (Inr v)
      with Pair Suc.prems show ?thesis by auto
    qed
  qed
qed

subsection \<open>The scan and the hold filter\<close>

lemma scan_sql_store: "snd (scan_sql t d s) = executed s"
  by (simp add: scan_sql_def Let_def)

lemma scan_policies_store:
  "snd (scan_policies ps acc s) = s\<lparr>stmt_no := stmt_no s + length ps\<rparr>"
proof (induction ps arbitrary: acc s)
  case Nil
  then show ?case by simp
next
  case (Cons p ps)
  obtain t d where p: "p = (t, d)" by (cases p)
  obtain r s1 where r: "scan_sql t d s = (r, s1)" by (cases "scan_sql t d s")
  then have s1: "s1 = executed s" using scan_sql_store[of t d s] by simp
  show ?case using Cons.IH r p s1
    by (auto simp: executed_def split: sum.splits prod.splits)
qed

lemma identify_store:
  "snd (identify_expired_data s) = s\<lparr>stmt_no := stmt_no s + 10\<rparr>"
  unfolding identify_expired_data_def scan_policies_store by (simp add: retention_policies_def)

lemma check_legal_holds_store: "snd (check_legal_holds ed s) = executed s"
  by (simp add: check_legal_holds_def holds_sql_def Let_def)

lemma check_legal_holds_raises:
  "raises s \<Longrightarrow> check_legal_holds ed s = (Inl (DatabaseError (stmt_no s)), executed s)"
  by (simp add: check_legal_holds_def holds_sql_def)

lemma group_holds_keys:
  "fst ` set (group_holds hs acc) = fst ` set acc \<union> fst ` set hs"
proof (induction hs arbitrary: acc)
  case Nil
  then show ?case by simp
next
  case (Cons h hs)
  obtain t rid why who at where h: "h = (t, rid, why, who, at)" by (cases h)
  show ?case unfolding h
    by (auto simp: Cons.IH dom_map_entry dom_update)
qed

lemma filter_expired_keys:
  "fst ` set (filter_expired ed lh acc) = fst ` set acc \<union> (fst ` set ed - fst ` set lh)"
proof (induction ed arbitrary: acc)
  case Nil
  then show ?case by simp
next
  case (Cons p ed)
  obtain t d where p: "p = (t, d)" by (cases p)
  show ?case unfolding p
    by (auto simp: Cons.IH dom_update)
qed

lemma check_legal_holds_Inr:
  assumes "fst (check_legal_holds ed s) = Inr (fd, lh)"
  shows "fst ` set lh = held_categories (NOW s) (legal_holds s)"
    and "fst ` set fd = fst ` set ed - fst ` set lh"
proof -
  let ?rows = "map (\<lambda>h. (lh_table_name h, lh_record_id h, lh_hold_reason h, lh_created_by h,
                        lh_created_at h)) (filter (hold_selected (NOW s)) (legal_holds s))"
  from assms have lh: "lh = group_holds ?rows []" and fd: "fd = filter_expired ed lh []"
    by (auto simp: check_legal_holds_def holds_sql_def Let_def split: if_splits)
  show "fst ` set lh = held_categories (NOW s) (legal_holds s)"
    unfolding lh group_holds_keys held_categories_def by (simp add: image_image)
  show "fst ` set fd = fst ` set ed - fst ` set lh"
    unfolding fd filter_expired_keys by simp
qed

lemma check_attempt_store:
  assumes "with_retries n (check_legal_holds ed) s1 = (r, s2)"
  shows "\<exists>j\<le>n. check_legal_holds ed (s1\<lparr>stmt_no := stmt_no s1 + j\<rparr>) = (r, s2)"
  using assms
proof (induction n arbitrary: s1)
  case 0
  then show ?case by simp
next
  case (Suc n)
  obtain a s' where c: "check_legal_holds ed s1 = (a, s')" by (cases "check_legal_holds ed s1")
  with check_legal_holds_store[of ed s1] have s': "s' = executed s1" by simp
  show ?case
  proof (cases a)
    case (Inl e)
    with c Suc.prems have "with_retries n (check_legal_holds ed) s' = (r, s2)" by simp
    from Suc.IH[OF this] obtain j where j: "j \<le> n"
      and at: "check_legal_holds ed (s'\<lparr>stmt_no := stmt_no s' + j\<rparr>) = (r, s2)" by blast
    have "s'\<lparr>stmt_no := stmt_no s' + j\<rparr> = s1\<lparr>stmt_no := stmt_no s1 + Suc j\<rparr>"
      by (simp add: s' executed_def)
    with at have "check_legal_holds ed (s1\<lparr>stmt_no := stmt_no s1 + Suc j\<rparr>) = (r, s2)"
      by simp
    with j show ?thesis by (intro exI[of _ "Suc j"]) simp
  next
    case (Inr v)
    with c Suc.prems have "check_legal_holds ed s1 = (r, s2)" by simp
    then show ?thesis by (intro exI[of _ 0]) simp
  qed
qed

lemma filter_expired_distinct:
  "distinct (map fst acc) \<Longrightarrow> distinct (map fst (filter_expired ed lh acc))"
proof (induction ed arbitrary: acc)
  case Nil
  then show ?case by simp
next
  case (Cons p ed)
  obtain t d where p: "p = (t, d)" by (cases p)
  show ?case unfolding p using Cons.prems by (auto intro!: Cons.IH simp: distinct_update)
qed

lemma check_legal_holds_filtered:
  assumes "check_legal_holds ed s = (Inr (fd, lh), s')"
  shows "distinct (map fst fd)" and "\<not> db_fails s (stmt_no s)"
  using assms filter_expired_distinct[of "[]" ed]
  by (auto simp: check_legal_holds_def holds_sql_def Let_def raises_def split: if_splits)

lemma check_legal_holds_Inl:
  assumes "check_legal_holds ed s = (Inl e, s')"
  shows "db_fails s (stmt_no s)"
  using assms
  by (auto simp: check_legal_holds_def holds_sql_def Let_def raises_def split: if_splits)

lemma check_attempts:
  assumes "with_retries n (check_legal_holds ed) s1 = (Inr (fd, lh), s2)"
  shows "\<exists>k\<le>n. (\<forall>i<k. db_fails s1 (stmt_no s1 + i)) \<and> \<not> db_fails s1 (stmt_no s1 + k) \<and>
           s2 = s1\<lparr>stmt_no := stmt_no s1 + k + 1\<rparr> \<and> distinct (map fst fd)"
  using assms
proof (induction n arbitrary: s1)
  case 0
  then have c: "check_legal_holds ed s1 = (Inr (fd, lh), s2)" by simp
  with check_legal_holds_store[of ed s1] have "s2 = executed s1" by simp
  with check_legal_holds_filtered[OF c] show ?case by (simp add: executed_def)
next
  case (Suc n)
  obtain a s' where c: "check_legal_holds ed s1 = (a, s')" by (cases "check_legal_holds ed s1")
  with check_legal_holds_store[of ed s1] have s': "s' = executed s1" by simp
  show ?case
  proof (cases a)
    case (Inl e)
    with c Suc.prems have "with_retries n (check_legal_holds ed) s' = (Inr (fd, lh), s2)" by simp
    from Suc.IH[OF this] obtain k where k: "k \<le> n"
      and f: "\<forall>i<k. db_fails s' (stmt_no s' + i)" and nf: "\<not> db_fails s' (stmt_no s' + k)"
      and s2: "s2 = s'\<lparr>stmt_no := stmt_no s' + k + 1\<rparr>" and d: "distinct (map fst fd)"
      by blast
    from c Inl have f0: "db_fails s1 (stmt_no s1)" using check_legal_holds_Inl by simp
    have "\<forall>i<Suc k. db_fails s1 (stmt_no s1 + i)"
    proof (intro allI impI)
      fix i assume i: "i < Suc k"
      show "db_fails s1 (stmt_no s1 + i)"
      proof (cases i)
        case 0
        with f0 show ?thesis by simp
      next
        case (Suc i')
        with i f have "db_fails s' (stmt_no s' + i')" by simp
        then show ?thesis by (simp add: s' executed_def Suc)
      qed
    qed
    moreover from nf have "\<not> db_fails s1 (stmt_no s1 + Suc k)" by (simp add: s' executed_def)
    moreover from s2 have "s2 = s1\<lparr>stmt_no := stmt_no s1 + Suc k + 1\<rparr>"
      by (simp add: s' executed_def)
    ultimately show ?thesis using k d by (intro exI[of _ "Suc k"]) simp
  next
    case (Inr v)
    with c Suc.prems have c': "check_legal_holds ed s1 = (Inr (fd, lh), s2)" by simp
    with check_legal_holds_store[of ed s1] have "s2 = executed s1" by simp
    with check_legal_holds_filtered[OF c'] show ?thesis
      by (intro exI[of _ 0]) (simp add: executed_def)
  qed
qed

subsection \<open>The deletion loop\<close>

lemma delete_tables_keys:
  "fst ` set (fst (fst (delete_tables fd acc n s))) = fst ` set acc \<union> fst ` set fd"
proof (induction fd arbitrary: acc n s)
  case Nil
  then show ?case by simp
next
  case (Cons p fd)
  obtain t d where p: "p = (t, d)" by (cases p)
  show ?case unfolding p
    by (auto simp: Cons.IH dom_update split: prod.splits)
qed

lemma execute_data_deletion_keys:
  assumes "execute_data_deletion fd m s = (Inr dr, s')"
  shows "fst ` set dr = fst ` set fd"
proof -
  from assms have "dr = fst (fst (delete_tables fd [] 0 s))"
    by (auto simp: execute_data_deletion_def split: prod.splits option.splits sum.splits)
  then show ?thesis by (simp add: delete_tables_keys)
qed

subsection \<open>What changes in the database\<close>

lemma rows_only_refl: "rows_only s s"
  by (simp add: rows_only_def)

lemma rows_only_trans: "rows_only s s1 \<Longrightarrow> rows_only s1 s2 \<Longrightarrow> rows_only s s2"
  by (simp add: rows_only_def)

lemma with_retries_invariant:
  assumes "with_retries n task s = (r, s')" and "P s"
    and "\<And>s0 r0 s1. P s0 \<Longrightarrow> task s0 = (r0, s1) \<Longrightarrow> P s1"
  shows "P s'"
proof -
  from with_retries_final[OF assms(1), of P] assms(2,3) obtain s0 where
    "P s0" "task s0 = (r, s')" by blast
  then show ?thesis using assms(3) by blast
qed

lemma anonymize_sql_rows_only: "rows_only s (snd (anonymize_sql t sc d s))"
  by (simp add: anonymize_sql_def executed_def rows_only_def)

lemma anonymize_tables_rows_only: "rows_only s (snd (anonymize_tables fd acc s))"
proof (induction fd arbitrary: acc s)
  case Nil
  show ?case by (simp add: rows_only_refl)
next
  case (Cons p fd)
  obtain t d where p: "p = (t, d)" by (cases p)
  show ?case
  proof (cases "map_of anonymization_config t")
    case None
    then show ?thesis using Cons.IH[of s acc] by (simp add: p)
  next
    case (Some fs)
    show ?thesis
    proof (cases "map set_clause fs = []")
      case True
      then show ?thesis using Some Cons.IH[of s acc] by (simp add: p)
    next
      case False
      obtain r s1 where r: "anonymize_sql t (map set_clause fs) (retention_days d) s = (r, s1)"
        by (cases "anonymize_sql t (map set_clause fs) (retention_days d) s")
      with anonymize_sql_rows_only[of s t "map set_clause fs" "retention_days d"]
      have s1: "rows_only s s1" by simp
      show ?thesis
      proof (cases r)
        case (Inl e)
        then show ?thesis using Some False r rows_only_trans[OF s1 Cons.IH[of s1]]
          by (simp add: p Let_def)
      next
        case (Inr u)
        then show ?thesis using Some False r rows_only_trans[OF s1 Cons.IH[of s1]]
          by (simp add: p Let_def)
      qed
    qed
  qed
qed

lemma count_sql_store: "snd (count_sql t d s) = executed s"
  by (simp add: count_sql_def)

lemma delete_sql_rows_only: "rows_only s (snd (delete_sql t d s))"
  by (simp add: delete_sql_def executed_def rows_only_def)

lemma executed_rows_only: "rows_only s (executed s)"
  by (simp add: executed_def rows_only_def)

lemma delete_expired_rows_only: "rows_only s (snd (delete_expired t d s))"
proof -
  obtain r1 s1 where c1: "count_sql t (retention_days d) s = (r1, s1)"
    by (cases "count_sql t (retention_days d) s")
  with count_sql_store[of t "retention_days d" s] executed_rows_only[of s]
  have s1: "rows_only s s1" by simp
  obtain r2 s2 where c2: "delete_sql t (retention_days d) s1 = (r2, s2)"
    by (cases "delete_sql t (retention_days d) s1")
  with delete_sql_rows_only[of s1 t "retention_days d"] s1
  have s2: "rows_only s s2" by (auto intro: rows_only_trans)
  obtain r3 s3 where c3: "count_sql t (retention_days d) s2 = (r3, s3)"
    by (cases "count_sql t (retention_days d) s2")
  with count_sql_store[of t "retention_days d" s2] executed_rows_only[of s2] s2
  have s3: "rows_only s s3" by (auto intro: rows_only_trans)
  show ?thesis using c1 c2 c3 s1 s2 s3
    by (auto simp: delete_expired_def Let_def split: sum.splits)
qed

lemma delete_tables_rows_only: "rows_only s (snd (delete_tables fd acc k s))"
proof (induction fd arbitrary: acc k s)
  case Nil
  show ?case by (simp add: rows_only_refl)
next
  case (Cons p fd)
  obtain t d where p: "p = (t, d)" by (cases p)
  obtain r dl s1 where r: "delete_expired t d s = ((r, dl), s1)"
    by (cases "delete_expired t d s") auto
  with delete_expired_rows_only[of s t d] have s1: "rows_only s s1" by simp
  show ?case using rows_only_trans[OF s1 Cons.IH[of s1]] r by (simp add: p)
qed

lemma identify_rows_only: "rows_only s (snd (identify_expired_data s))"
  by (simp add: identify_store rows_only_def)

lemma check_rows_only: "rows_only s (snd (check_legal_holds ed s))"
  by (simp add: check_legal_holds_store executed_rows_only)

subsection \<open>The manifest row\<close>

lemma manifest_tables_fields:
  "total_records_to_delete (manifest_tables fd ar m) =
     total_records_to_delete m + sum_list (map (\<lambda>p. count (snd p)) fd)"
  "manifest_id (manifest_tables fd ar m) = manifest_id m"
  "deletion_date (manifest_tables fd ar m) = deletion_date m"
  "map ti_table_name (tables_affected (manifest_tables fd ar m)) =
     map ti_table_name (tables_affected m) @ map fst fd"
  by (induction fd arbitrary: m; auto)+

lemma create_deletion_manifest_Inl:
  assumes "create_deletion_manifest fd ar s = (Inl e, s')"
  shows "s' = executed s"
  using assms
  by (auto simp: create_deletion_manifest_def insert_manifest_sql_def Let_def split: if_splits)

lemma create_deletion_manifest_Inr:
  assumes "create_deletion_manifest fd ar s = (Inr m, s')"
  shows "manifest_id m = Some (manifest_seq s)"
    and "total_records_to_delete m = sum_list (map (\<lambda>p. count (snd p)) fd)"
    and "map ti_table_name (tables_affected m) = map fst fd"
    and "data_deletion_manifests s' = data_deletion_manifests s @
           [\<lparr>dm_id = manifest_seq s, dm_deletion_date = datetime_now s 1,
             dm_manifest_data = m\<lparr>manifest_id := None\<rparr>,
             dm_total_records = total_records_to_delete m, dm_status = ''PENDING'',
             dm_deletion_results = None, dm_actual_deletions = None,
             dm_completed_at = None\<rparr>]"
    and "deletion_date m = datetime_now s 0"
  using assms
  by (auto simp: create_deletion_manifest_def insert_manifest_sql_def Let_def executed_def
      manifest_tables_fields split: if_splits)

lemma execute_data_deletion_Inl:
  assumes "execute_data_deletion fd m s = (Inl e, s')"
  shows "data_deletion_manifests s' = data_deletion_manifests s"
proof -
  obtain r s1 where d: "delete_tables fd [] 0 s = (r, s1)" by (cases "delete_tables fd [] 0 s")
  with delete_tables_rows_only[of s fd "[]" 0]
  have "data_deletion_manifests s1 = data_deletion_manifests s" by (simp add: rows_only_def)
  then show ?thesis using assms d
    by (auto simp: execute_data_deletion_def update_manifest_sql_def executed_def
        split: prod.splits option.splits sum.splits if_splits)
qed

lemma execute_data_deletion_Inr:
  assumes "execute_data_deletion fd m s = (Inr dr, s')"
  shows "manifest_id m \<noteq> None"
    and "data_deletion_manifests s' =
           map (\<lambda>r. if dm_id r = the (manifest_id m)
                    then r\<lparr>dm_status := manifest_status dr, dm_deletion_results := Some dr,
                           dm_actual_deletions := Some (snd (fst (delete_tables fd [] 0 s))),
                           dm_completed_at := Some (NOW (snd (delete_tables fd [] 0 s)))\<rparr>
                    else r)
             (data_deletion_manifests s)"
proof -
  obtain r s1 where d: "delete_tables fd [] 0 s = (r, s1)" by (cases "delete_tables fd [] 0 s")
  with delete_tables_rows_only[of s fd "[]" 0]
  have same: "data_deletion_manifests s1 = data_deletion_manifests s"
    by (simp add: rows_only_def)
  from assms d obtain i where i: "manifest_id m = Some i"
    and up: "update_manifest_sql (manifest_status dr) dr (snd r) i s1 = (Inr (), s')"
    by (auto simp: execute_data_deletion_def split: prod.splits option.splits sum.splits)
  from up same have eq:
    "data_deletion_manifests s' =
       map (\<lambda>r'. if dm_id r' = i
                then r'\<lparr>dm_status := manifest_status dr, dm_deletion_results := Some dr,
                       dm_actual_deletions := Some (snd r), dm_completed_at := Some (NOW s1)\<rparr>
                else r')
         (data_deletion_manifests s)"
    by (auto simp: update_manifest_sql_def executed_def split: if_splits)
  show "manifest_id m \<noteq> None" by (simp add: i)
  show "data_deletion_manifests s' =
           map (\<lambda>r. if dm_id r = the (manifest_id m)
                    then r\<lparr>dm_status := manifest_status dr, dm_deletion_results := Some dr,
                           dm_actual_deletions := Some (snd (fst (delete_tables fd [] 0 s))),
                           dm_completed_at := Some (NOW (snd (delete_tables fd [] 0 s)))\<rparr>
                    else r)
             (data_deletion_manifests s)"
    by (simp add: i eq d)
qed

lemma map_dm_id_update:
  "map dm_id
     (map (\<lambda>r. if P r
              then r\<lparr>dm_status := a, dm_deletion_results := b, dm_actual_deletions := c,
                     dm_completed_at := d\<rparr>
              else r) xs) = map dm_id xs"
  by (induction xs) auto

lemma execute_data_deletion_fixed:
  assumes "execute_data_deletion fd m s = (r, s')"
  shows "map fixed_part (data_deletion_manifests s') = map fixed_part (data_deletion_manifests s)"
proof (cases r)
  case (Inl e)
  with assms execute_data_deletion_Inl show ?thesis by simp
next
  case (Inr dr)
  with assms have "execute_data_deletion fd m s = (Inr dr, s')" by simp
  from execute_data_deletion_Inr(2)[OF this] show ?thesis
    by (simp add: fixed_part_def)
qed

lemma generate_compliance_report_manifests:
  assumes "generate_compliance_report m dr lh s = (r, s')"
  shows "data_deletion_manifests s' = data_deletion_manifests s"
  using assms
  by (auto simp: generate_compliance_report_def insert_report_sql_def executed_def Let_def
      split: option.splits if_splits)

lemma generate_compliance_report_Inr:
  assumes "generate_compliance_report m dr lh s = (Inr rep, s')"
  shows "compliance_status rep = report_status dr" and "detailed_results rep = dr"
    and "report_manifest_id rep = manifest_id m"
  using assms
  by (auto simp: generate_compliance_report_def insert_report_sql_def Let_def
      split: option.splits if_splits)

lemma check_retries_rows_only:
  assumes "with_retries n (check_legal_holds ed) s1 = (r, s2)"
  shows "rows_only s1 s2"
proof (rule with_retries_invariant[OF assms, of "rows_only s1"])
  show "rows_only s1 s1" by (rule rows_only_refl)
next
  fix s0 r0 s3
  assume a: "rows_only s1 s0" and b: "check_legal_holds ed s0 = (r0, s3)"
  from check_rows_only[of s0 ed] b have "rows_only s0 s3" by simp
  with a show "rows_only s1 s3" by (rule rows_only_trans)
qed

lemma create_retries_manifests:
  assumes "with_retries n (create_deletion_manifest fd ar) s3 = (Inr m, s4)"
  shows "\<exists>c0. data_deletion_manifests c0 = data_deletion_manifests s3 \<and>
           create_deletion_manifest fd ar c0 = (Inr m, s4)"
proof (rule with_retries_final[OF assms])
  show "data_deletion_manifests s3 = data_deletion_manifests s3" by (rule refl)
next
  fix s0 e s1
  assume a: "data_deletion_manifests s0 = data_deletion_manifests s3"
    and b: "create_deletion_manifest fd ar s0 = (Inl e, s1)"
  from create_deletion_manifest_Inl[OF b] a
  show "data_deletion_manifests s1 = data_deletion_manifests s3" by (simp add: executed_def)
qed

lemma execute_retries_fixed:
  assumes "with_retries n (execute_data_deletion fd m) s4 = (r, s5)"
  shows "map fixed_part (data_deletion_manifests s5) = map fixed_part (data_deletion_manifests s4)"
proof (rule with_retries_invariant[OF assms,
      of "\<lambda>s0. map fixed_part (data_deletion_manifests s0) =
                 map fixed_part (data_deletion_manifests s4)"])
  show "map fixed_part (data_deletion_manifests s4) = map fixed_part (data_deletion_manifests s4)"
    by (rule refl)
next
  fix s0 r0 s1
  assume a: "map fixed_part (data_deletion_manifests s0) =
               map fixed_part (data_deletion_manifests s4)"
    and b: "execute_data_deletion fd m s0 = (r0, s1)"
  from execute_data_deletion_fixed[OF b] a
  show "map fixed_part (data_deletion_manifests s1) = map fixed_part (data_deletion_manifests s4)"
    by simp
qed

lemma report_retries_manifests:
  assumes "with_retries n (generate_compliance_report m dr lh) s5 = (r, s6)"
  shows "data_deletion_manifests s6 = data_deletion_manifests s5"
proof (rule with_retries_invariant[OF assms,
      of "\<lambda>s0. data_deletion_manifests s0 = data_deletion_manifests s5"])
  show "data_deletion_manifests s5 = data_deletion_manifests s5" by (rule refl)
next
  fix s0 r0 s1
  assume a: "data_deletion_manifests s0 = data_deletion_manifests s5"
    and b: "generate_compliance_report m dr lh s0 = (r0, s1)"
  from generate_compliance_report_manifests[OF b] a
  show "data_deletion_manifests s1 = data_deletion_manifests s5" by simp
qed

subsection \<open>The two status expressions\<close>

lemma get_success_False: "get (success r) False = (success r = Some True)"
  by (cases "success r") (auto simp: get_def)

lemma manifest_status_iff:
  "(manifest_status dr = ''COMPLETED'') = (\<forall>r \<in> snd ` set dr. success r = Some True)"
  by (simp add: manifest_status_def get_success_False list_all_iff)

lemma manifest_status_cases:
  "manifest_status dr \<noteq> ''COMPLETED'' \<Longrightarrow> manifest_status dr = ''PARTIAL''"
  by (simp add: manifest_status_def split: if_splits)

lemma report_status_iff:
  "(report_status dr = ''COMPLIANT'') = (\<forall>r \<in> snd ` set dr. success r = Some True)"
  by (simp add: report_status_def get_success_False list_all_iff)

lemma report_status_cases:
  "report_status dr \<noteq> ''COMPLIANT'' \<Longrightarrow> report_status dr = ''NEEDS_ATTENTION''"
  by (simp add: report_status_def split: if_splits)

lemma status_agree:
  "(report_status dr = ''COMPLIANT'') = (manifest_status dr = ''COMPLETED'')"
  "(report_status dr = ''NEEDS_ATTENTION'') = (manifest_status dr = ''PARTIAL'')"
  by (simp_all add: report_status_def manifest_status_def)

subsection \<open>The statements of the scan\<close>

lemma scan_entry_stmt_no [simp]: "scan_entry (s\<lparr>stmt_no := k\<rparr>) n t d = scan_entry s n t d"
  by (simp add: scan_entry_def)

lemma scan_policies_step:
  "scan_policies ((t, d) # rest) acc s =
     scan_policies rest
       (case scan_entry s (stmt_no s) t d of None \<Rightarrow> acc | Some e \<Rightarrow> AList.update t e acc)
       (executed s)"
  by (auto simp: scan_sql_def scan_entry_def entry_at_def raises_def NOW_def Let_def)

lemma scan_policies_other:
  "t \<notin> fst ` set ps \<Longrightarrow> map_of (fst (scan_policies ps acc s)) t = map_of acc t"
proof (induction ps arbitrary: acc s)
  case Nil
  then show ?case by simp
next
  case (Cons p ps)
  obtain t' d' where p: "p = (t', d')" by (cases p)
  from Cons.prems p have ne: "t' \<noteq> t" and notin: "t \<notin> fst ` set ps" by auto
  show ?case unfolding p scan_policies_step
    using ne by (simp add: Cons.IH[OF notin] update_conv' split: option.splits)
qed

lemma scan_policies_nth:
  assumes "distinct (map fst ps)" and "i < length ps" and "ps ! i = (t, d)"
  shows "map_of (fst (scan_policies ps acc s)) t =
           (case scan_entry s (stmt_no s + i) t d of None \<Rightarrow> map_of acc t | Some e \<Rightarrow> Some e)"
  using assms
proof (induction ps arbitrary: acc s i)
  case Nil
  then show ?case by simp
next
  case (Cons p ps)
  obtain t' d' where p: "p = (t', d')" by (cases p)
  show ?case
  proof (cases i)
    case 0
    with Cons.prems p have eq: "t' = t" "d' = d" and notin: "t \<notin> fst ` set ps" by auto
    show ?thesis unfolding p scan_policies_step eq
      by (simp add: scan_policies_other[OF notin] 0 update_conv' split: option.splits)
  next
    case (Suc j)
    with Cons.prems p have d: "distinct (map fst ps)" and j: "j < length ps"
      and nth: "ps ! j = (t, d)" by auto
    from nth j have "t \<in> fst ` set ps" by (metis fst_conv image_eqI nth_mem)
    with Cons.prems(1) p have ne: "t' \<noteq> t" by auto
    show ?thesis unfolding p scan_policies_step
      using ne by (simp add: Cons.IH[OF d j nth] Suc executed_def update_conv' split: option.splits)
  qed
qed

lemma retention_policies_distinct: "distinct (map fst retention_policies)"
  by (simp add: retention_policies_def)

lemma identify_nth:
  assumes "i < length retention_policies" and "retention_policies ! i = (t, d)"
  shows "map_of (fst (identify_expired_data s)) t = scan_entry s (stmt_no s + i) t d"
  unfolding identify_expired_data_def
  by (simp add: scan_policies_nth[OF retention_policies_distinct assms] split: option.splits)

subsection \<open>The anonymization results\<close>

lemma config_nonempty: "map_of anonymization_config t = Some fs \<Longrightarrow> map set_clause fs \<noteq> []"
  by (auto simp: anonymization_config_def split: if_splits)

lemma config_keys: "(map_of anonymization_config t \<noteq> None) = (t \<in> fst ` set anonymization_config)"
  by (simp add: map_of_eq_None_iff)

lemma anonymize_tables_keys:
  "fst ` set (fst (anonymize_tables fd acc s)) =
     fst ` set acc \<union> (fst ` set fd \<inter> fst ` set anonymization_config)"
proof (induction fd arbitrary: acc s)
  case Nil
  show ?case by simp
next
  case (Cons p fd)
  obtain t d where p: "p = (t, d)" by (cases p)
  show ?case
  proof (cases "map_of anonymization_config t")
    case None
    then have "t \<notin> fst ` set anonymization_config" using config_keys[of t] by simp
    with None show ?thesis by (auto simp: p Cons.IH)
  next
    case (Some fs)
    then have in_cfg: "t \<in> fst ` set anonymization_config" using config_keys[of t] by simp
    obtain r s1 where r: "anonymize_sql t (map set_clause fs) (retention_days d) s = (r, s1)"
      by (cases "anonymize_sql t (map set_clause fs) (retention_days d) s")
    show ?thesis using Some config_nonempty[OF Some] r in_cfg
      by (cases r) (auto simp: p Cons.IH Let_def dom_update)
  qed
qed

lemma anonymize_tables_entries:
  assumes "\<forall>t r. map_of acc t = Some r \<longrightarrow> anonymized r = (anon_error r = None)"
  shows "\<forall>t r. map_of (fst (anonymize_tables fd acc s)) t = Some r \<longrightarrow>
           anonymized r = (anon_error r = None)"
  using assms
proof (induction fd arbitrary: acc s)
  case Nil
  then show ?case by simp
next
  case (Cons p fd)
  obtain t d where p: "p = (t, d)" by (cases p)
  show ?case
  proof (cases "map_of anonymization_config t")
    case None
    then show ?thesis using Cons.IH[OF Cons.prems] by (simp add: p)
  next
    case (Some fs)
    obtain r s1 where r: "anonymize_sql t (map set_clause fs) (retention_days d) s = (r, s1)"
      by (cases "anonymize_sql t (map set_clause fs) (retention_days d) s")
    show ?thesis
    proof (cases r)
      case (Inl e)
      let ?acc = "AList.update t \<lparr>anonymized = False, anon_fields = None, sql_executed = None,
                     anon_error = Some e\<rparr> acc"
      have "\<forall>t r. map_of ?acc t = Some r \<longrightarrow> anonymized r = (anon_error r = None)"
        using Cons.prems by (auto simp: update_conv')
      from Cons.IH[OF this, of s1] show ?thesis
        using Some config_nonempty[OF Some] r Inl by (simp add: p Let_def)
    next
      case (Inr u)
      let ?acc = "AList.update t \<lparr>anonymized = True, anon_fields = Some fs,
                     sql_executed = Some (UpdateSql t (map set_clause fs) (retention_days d)),
                     anon_error = None\<rparr> acc"
      have "\<forall>t r. map_of ?acc t = Some r \<longrightarrow> anonymized r = (anon_error r = None)"
        using Cons.prems by (auto simp: update_conv')
      from Cons.IH[OF this, of s1] show ?thesis
        using Some config_nonempty[OF Some] r Inr by (simp add: p Let_def)
    qed
  qed
qed

lemma anonymization_entry_frame:
  "db_fails s' = db_fails s \<Longrightarrow> anonymization_entry s' n = anonymization_entry s n"
  by (simp add: fun_eq_iff anonymization_entry_def)

lemma anonymize_sql_frame:
  "stmt_no (snd (anonymize_sql t c d s)) = Suc (stmt_no s)"
  "db_fails (snd (anonymize_sql t c d s)) = db_fails s"
  by (simp_all add: anonymize_sql_def executed_def)

lemma anonymize_tables_step:
  assumes "map_of anonymization_config t = Some flds"
  shows "anonymize_tables ((t, d) # rest) acc s =
           anonymize_tables rest
             (AList.update t (anonymization_entry s (stmt_no s) t flds d) acc)
             (snd (anonymize_sql t (map set_clause flds) (retention_days d) s))"
  using assms config_nonempty[OF assms]
  by (simp add: Let_def anonymize_sql_def anonymization_entry_def raises_def)

lemma anonymize_tables_other:
  "t \<notin> fst ` set fd \<Longrightarrow> map_of (fst (anonymize_tables fd acc s)) t = map_of acc t"
proof (induction fd arbitrary: acc s)
  case Nil
  then show ?case by simp
next
  case (Cons p fd)
  obtain t' d' where p: "p = (t', d')" by (cases p)
  from Cons.prems p have ne: "t' \<noteq> t" and notin: "t \<notin> fst ` set fd" by auto
  show ?case
  proof (cases "map_of anonymization_config t'")
    case None
    then show ?thesis unfolding p by (simp add: Cons.IH[OF notin])
  next
    case (Some fs)
    show ?thesis unfolding p anonymize_tables_step[OF Some]
      using ne by (simp add: Cons.IH[OF notin] update_conv')
  qed
qed

lemma anonymize_tables_nth:
  assumes "distinct (map fst fd)" and "j < length (profiled fd)"
    and "profiled fd ! j = (t, data)" and "map_of anonymization_config t = Some flds"
  shows "map_of (fst (anonymize_tables fd acc s)) t =
           Some (anonymization_entry s (stmt_no s + j) t flds data)"
  using assms(1-3)
proof (induction fd arbitrary: acc s j)
  case Nil
  then show ?case by (simp add: profiled_def)
next
  case (Cons p fd)
  obtain t' d' where p: "p = (t', d')" by (cases p)
  from Cons.prems(1) p have dist: "distinct (map fst fd)" and notin': "t' \<notin> fst ` set fd"
    by auto
  show ?case
  proof (cases "map_of anonymization_config t'")
    case None
    then have "t' \<notin> fst ` set anonymization_config" using config_keys[of t'] by simp
    then have pr: "profiled (p # fd) = profiled fd" by (simp add: profiled_def p)
    from Cons.prems pr have "j < length (profiled fd)" "profiled fd ! j = (t, data)" by simp_all
    from Cons.IH[OF dist this] None show ?thesis unfolding p by simp
  next
    case (Some fs)
    then have "t' \<in> fst ` set anonymization_config" using config_keys[of t'] by simp
    then have pr: "profiled (p # fd) = (t', d') # profiled fd" by (simp add: profiled_def p)
    show ?thesis
    proof (cases j)
      case 0
      with Cons.prems(3) pr have eq: "t' = t" "d' = data" by simp_all
      from Some eq assms(4) have fs: "fs = flds" by simp
      from notin' eq have notin: "t \<notin> fst ` set fd" by simp
      show ?thesis unfolding p anonymize_tables_step[OF Some]
        by (simp add: anonymize_tables_other[OF notin] update_conv' eq fs 0)
    next
      case (Suc j')
      with Cons.prems pr have j': "j' < length (profiled fd)"
        and nth: "profiled fd ! j' = (t, data)" by simp_all
      from nth j' have "(t, data) \<in> set (profiled fd)" by (metis nth_mem)
      then have "t \<in> fst ` set fd" by (force simp: profiled_def)
      with notin' have ne: "t' \<noteq> t" by auto
      show ?thesis unfolding p anonymize_tables_step[OF Some]
        by (simp add: Cons.IH[OF dist j' nth] anonymize_sql_frame Suc
            anonymization_entry_frame[OF anonymize_sql_frame(2)])
    qed
  qed
qed

subsection \<open>The anonymization marker\<close>

lemma marked_only_refl: "marked_only xs xs"
  by (simp add: marked_only_def)

lemma marked_only_trans:
  assumes "marked_only xs ys" and "marked_only ys zs"
  shows "marked_only xs zs"
  unfolding marked_only_def
proof (intro conjI allI impI)
  show "length zs = length xs" using assms by (simp add: marked_only_def)
next
  fix i assume i: "i < length xs"
  with assms have a: "ys ! i = xs ! i \<or>
         (anonymized_at (xs ! i) = None \<and> anonymized_at (ys ! i) \<noteq> None \<and>
          created_at (ys ! i) = created_at (xs ! i))"
    and b: "zs ! i = ys ! i \<or>
         (anonymized_at (ys ! i) = None \<and> anonymized_at (zs ! i) \<noteq> None \<and>
          created_at (zs ! i) = created_at (ys ! i))"
    by (simp_all add: marked_only_def)
  from a b show "zs ! i = xs ! i \<or>
         (anonymized_at (xs ! i) = None \<and> anonymized_at (zs ! i) \<noteq> None \<and>
          created_at (zs ! i) = created_at (xs ! i))"
    by auto
qed

lemma all_marked_preserved:
  assumes "marked_only xs ys" and "all_marked now d xs"
  shows "all_marked now d ys"
  unfolding all_marked_def
proof (intro ballI impI)
  fix r assume "r \<in> set ys" and ex: "is_expired now d r"
  then obtain i where i: "i < length ys" and r: "r = ys ! i" by (auto simp: in_set_conv_nth)
  from assms(1) i have len: "i < length xs" by (simp add: marked_only_def)
  with assms(1) have "ys ! i = xs ! i \<or>
         (anonymized_at (xs ! i) = None \<and> anonymized_at (ys ! i) \<noteq> None \<and>
          created_at (ys ! i) = created_at (xs ! i))"
    by (simp add: marked_only_def)
  then show "anonymized_at r \<noteq> None"
  proof
    assume eq: "ys ! i = xs ! i"
    from len have "xs ! i \<in> set xs" by simp
    with assms(2) ex r eq show ?thesis by (auto simp: all_marked_def)
  next
    assume "anonymized_at (xs ! i) = None \<and> anonymized_at (ys ! i) \<noteq> None \<and>
          created_at (ys ! i) = created_at (xs ! i)"
    with r show ?thesis by simp
  qed
qed

text \<open>The rows of a table after the \<^verbatim>\<open>UPDATE\<close>, as a function of the rows before.\<close>

lemma update_rows_marked:
  "marked_only xs
     (map (\<lambda>(i, r). if is_expired now d r \<and> anonymized_at r = None
                    then anonymize_row now (uuid i) sc r else r)
        (enumerate 0 xs))"
  by (auto simp: marked_only_def nth_enumerate_eq anonymize_row_def)

lemma update_rows_all_marked:
  "all_marked now d
     (map (\<lambda>(i, r). if is_expired now d r \<and> anonymized_at r = None
                    then anonymize_row now (uuid i) sc r else r)
        (enumerate 0 xs))"
  by (auto simp: all_marked_def in_set_enumerate_eq anonymize_row_def is_expired_def)

lemma update_rows_id:
  assumes "all_marked now d xs"
  shows "map (\<lambda>(i, r). if is_expired now d r \<and> anonymized_at r = None
                    then anonymize_row now (uuid i) sc r else r)
           (enumerate 0 xs) = xs"
proof (rule nth_equalityI)
  show "length (map (\<lambda>(i, r). if is_expired now d r \<and> anonymized_at r = None
                    then anonymize_row now (uuid i) sc r else r) (enumerate 0 xs)) = length xs"
    by simp
next
  fix i
  assume "i < length (map (\<lambda>(i, r). if is_expired now d r \<and> anonymized_at r = None
                    then anonymize_row now (uuid i) sc r else r) (enumerate 0 xs))"
  then have i: "i < length xs" by simp
  then have "xs ! i \<in> set xs" by simp
  with assms have "\<not> (is_expired now d (xs ! i) \<and> anonymized_at (xs ! i) = None)"
    by (auto simp: all_marked_def)
  with i show "map (\<lambda>(i, r). if is_expired now d r \<and> anonymized_at r = None
                    then anonymize_row now (uuid i) sc r else r) (enumerate 0 xs) ! i = xs ! i"
    by (auto simp: nth_enumerate_eq)
qed

lemma anonymize_sql_marked:
  "marked_only (tables s t') (tables (snd (anonymize_sql t sc d s)) t')"
  by (simp add: anonymize_sql_def executed_def marked_only_refl update_rows_marked)

lemma anonymize_sql_all_marked:
  "\<not> raises s \<Longrightarrow> all_marked (NOW s) d (tables (snd (anonymize_sql t sc d s)) t)"
  by (simp add: anonymize_sql_def executed_def update_rows_all_marked)

lemma anonymize_sql_id:
  "all_marked (NOW s) d (tables s t) \<Longrightarrow> tables (snd (anonymize_sql t sc d s)) = tables s"
  by (auto simp: anonymize_sql_def executed_def update_rows_id)

lemma anonymize_tables_marked:
  "marked_only (tables s t') (tables (snd (anonymize_tables fd acc s)) t')"
proof (induction fd arbitrary: acc s)
  case Nil
  show ?case by (simp add: marked_only_refl)
next
  case (Cons p fd)
  obtain t d where p: "p = (t, d)" by (cases p)
  show ?case
  proof (cases "map_of anonymization_config t")
    case None
    then show ?thesis using Cons.IH[of s acc] by (simp add: p)
  next
    case (Some fs)
    obtain r s1 where r: "anonymize_sql t (map set_clause fs) (retention_days d) s = (r, s1)"
      by (cases "anonymize_sql t (map set_clause fs) (retention_days d) s")
    with anonymize_sql_marked[of s t' t "map set_clause fs" "retention_days d"]
    have s1: "marked_only (tables s t') (tables s1 t')" by simp
    show ?thesis using Some config_nonempty[OF Some] r marked_only_trans[OF s1 Cons.IH[of s1]]
      by (cases r) (simp_all add: p Let_def)
  qed
qed

text \<open>
  After a pass whose statements all read the time \<open>c\<close> and none of which raises, every
  expired row of every category with a profile carries the marker.
\<close>

lemma first_pass_marks:
  assumes "\<forall>n. db_now s n = c" and "\<forall>n. \<not> db_fails s n"
    and "(t, data) \<in> set fd" and "t \<in> fst ` set anonymization_config"
  shows "all_marked c (retention_days data) (tables (snd (anonymize_tables fd acc s)) t)"
  using assms
proof (induction fd arbitrary: acc s)
  case Nil
  then show ?case by simp
next
  case (Cons p fd)
  obtain t0 d0 where p: "p = (t0, d0)" by (cases p)
  show ?case
  proof (cases "map_of anonymization_config t0")
    case None
    with Cons.prems(3,4) p have "(t, data) \<in> set fd"
      using config_keys[of t0] by auto
    from Cons.IH[OF Cons.prems(1,2) this Cons.prems(4), of acc] None show ?thesis
      by (simp add: p)
  next
    case (Some fs)
    obtain r s1 where r: "anonymize_sql t0 (map set_clause fs) (retention_days d0) s = (r, s1)"
      by (cases "anonymize_sql t0 (map set_clause fs) (retention_days d0) s")
    from anonymize_sql_rows_only[of s t0 "map set_clause fs" "retention_days d0"] r
    have ro: "rows_only s s1" by simp
    with Cons.prems(1,2) have c1: "\<forall>n. db_now s1 n = c" and f1: "\<forall>n. \<not> db_fails s1 n"
      by (simp_all add: rows_only_def)
    have step: "snd (anonymize_tables (p # fd) acc s) =
                  snd (anonymize_tables fd
                         (AList.update t0
                            (case r of
                               Inl e \<Rightarrow> \<lparr>anonymized = False, anon_fields = None,
                                          sql_executed = None, anon_error = Some e\<rparr>
                             | Inr u \<Rightarrow> \<lparr>anonymized = True, anon_fields = Some fs,
                                          sql_executed =
                                            Some (UpdateSql t0 (map set_clause fs)
                                                    (retention_days d0)),
                                          anon_error = None\<rparr>) acc) s1)"
      using Some config_nonempty[OF Some] r by (cases r) (simp_all add: p Let_def)
    show ?thesis
    proof (cases "(t, data) = (t0, d0)")
      case True
      from Cons.prems(1,2) have "\<not> raises s" and "NOW s = c"
        by (simp_all add: raises_def NOW_def)
      with anonymize_sql_all_marked[of s "retention_days d0" t0 "map set_clause fs"] r True
      have "all_marked c (retention_days data) (tables s1 t)" by simp
      with anonymize_tables_marked[of s1 t fd] show ?thesis
        unfolding step by (rule all_marked_preserved)
    next
      case False
      with Cons.prems(3) p have "(t, data) \<in> set fd" by auto
      from Cons.IH[OF c1 f1 this Cons.prems(4)] show ?thesis unfolding step .
    qed
  qed
qed

text \<open>A pass over categories whose expired rows all carry the marker rewrites nothing.\<close>

lemma second_pass_id:
  assumes "\<forall>n. db_now s n = c"
    and "\<forall>(t, data) \<in> set fd.
           t \<in> fst ` set anonymization_config \<longrightarrow>
             all_marked c (retention_days data) (tables s t)"
  shows "tables (snd (anonymize_tables fd acc s)) = tables s"
  using assms
proof (induction fd arbitrary: acc s)
  case Nil
  then show ?case by simp
next
  case (Cons p fd)
  obtain t0 d0 where p: "p = (t0, d0)" by (cases p)
  from Cons.prems(2) have rest: "\<forall>(t, data) \<in> set fd.
           t \<in> fst ` set anonymization_config \<longrightarrow>
             all_marked c (retention_days data) (tables s t)" by simp
  show ?case
  proof (cases "map_of anonymization_config t0")
    case None
    from Cons.IH[OF Cons.prems(1) rest, of acc] None show ?thesis by (simp add: p)
  next
    case (Some fs)
    then have "t0 \<in> fst ` set anonymization_config" using config_keys[of t0] by simp
    with Cons.prems(2) p have "all_marked c (retention_days d0) (tables s t0)" by simp
    moreover from Cons.prems(1) have "NOW s = c" by (simp add: NOW_def)
    ultimately have same:
      "tables (snd (anonymize_sql t0 (map set_clause fs) (retention_days d0) s)) = tables s"
      using anonymize_sql_id[of s "retention_days d0" t0 "map set_clause fs"] by simp
    obtain r s1 where r: "anonymize_sql t0 (map set_clause fs) (retention_days d0) s = (r, s1)"
      by (cases "anonymize_sql t0 (map set_clause fs) (retention_days d0) s")
    with same have t1: "tables s1 = tables s" by simp
    from anonymize_sql_rows_only[of s t0 "map set_clause fs" "retention_days d0"] r
    have "rows_only s s1" by simp
    with Cons.prems(1) have c1: "\<forall>n. db_now s1 n = c" by (simp add: rows_only_def)
    from rest t1 have rest1: "\<forall>(t, data) \<in> set fd.
           t \<in> fst ` set anonymization_config \<longrightarrow>
             all_marked c (retention_days data) (tables s1 t)" by simp
    show ?thesis using Some config_nonempty[OF Some] r Cons.IH[OF c1 rest1] t1
      by (cases r) (simp_all add: p Let_def)
  qed
qed

subsection \<open>The statements of the deletion\<close>


lemma delete_expired_clock:
  assumes "\<not> db_fails s (stmt_no s)" and "\<not> db_fails s (stmt_no s + 1)"
    and "\<not> db_fails s (stmt_no s + 2)"
  shows "fst (fst (delete_expired t data s)) =
           (let d = retention_days data;
                rows = tables s t;
                n = int (length (filter (is_expired (db_now s (stmt_no s)) d) rows));
                kept = filter (\<lambda>r. \<not> is_expired (db_now s (stmt_no s + 1)) d r) rows;
                r = int (length (filter (is_expired (db_now s (stmt_no s + 2)) d) kept))
            in if 0 < n
               then \<lparr>expected_deletions = Some n, actual_deletions = Some (n - r),
                     success = Some (r = 0), remaining_records = Some r, error = None\<rparr>
               else \<lparr>expected_deletions = Some 0, actual_deletions = Some 0,
                     success = Some True, remaining_records = Some 0, error = None\<rparr>)"
  using assms
  by (simp add: delete_expired_def count_sql_def delete_sql_def raises_def executed_def
      NOW_def Let_def)

subsection \<open>What a run has done when a key was pushed\<close>

lemma run_dag_results:
  assumes "x_deletion_results (fst (run_dag s)) = Some dr"
  shows "\<exists>ed s1 fd lh s2 ar s3 m s4 s5.
           identify_expired_data s = (ed, s1) \<and>
           with_retries retries (check_legal_holds ed) s1 = (Inr (fd, lh), s2) \<and>
           anonymize_before_deletion fd s2 = (ar, s3) \<and>
           with_retries retries (create_deletion_manifest fd ar) s3 = (Inr m, s4) \<and>
           with_retries retries (execute_data_deletion fd m) s4 = (Inr dr, s5) \<and>
           snd (run_dag s) =
             snd (with_retries retries (generate_compliance_report m dr lh) s5) \<and>
           x_expired_data (fst (run_dag s)) = Some ed \<and>
           x_filtered_expired_data (fst (run_dag s)) = Some fd \<and>
           x_legal_holds (fst (run_dag s)) = Some lh \<and>
           x_anonymization_results (fst (run_dag s)) = Some ar \<and>
           x_deletion_manifest (fst (run_dag s)) = Some m \<and>
           x_report (fst (run_dag s)) =
             (case fst (with_retries retries (generate_compliance_report m dr lh) s5) of
                Inl e \<Rightarrow> None | Inr rep \<Rightarrow> Some rep)"
  using assms
  by (auto simp: run_dag_def no_xcom_def Let_def split: prod.splits sum.splits)

lemma run_dag_manifest:
  assumes "x_deletion_manifest (fst (run_dag s)) = Some m"
  shows "\<exists>ed s1 fd lh s2 ar s3 s4.
           identify_expired_data s = (ed, s1) \<and>
           with_retries retries (check_legal_holds ed) s1 = (Inr (fd, lh), s2) \<and>
           anonymize_before_deletion fd s2 = (ar, s3) \<and>
           with_retries retries (create_deletion_manifest fd ar) s3 = (Inr m, s4) \<and>
           x_filtered_expired_data (fst (run_dag s)) = Some fd \<and>
           x_anonymization_results (fst (run_dag s)) = Some ar \<and>
           (case fst (with_retries retries (execute_data_deletion fd m) s4) of
              Inl e \<Rightarrow>
                snd (run_dag s) = snd (with_retries retries (execute_data_deletion fd m) s4) \<and>
                x_deletion_results (fst (run_dag s)) = None
            | Inr dr \<Rightarrow>
                x_deletion_results (fst (run_dag s)) = Some dr \<and>
                snd (run_dag s) =
                  snd (with_retries retries (generate_compliance_report m dr lh)
                         (snd (with_retries retries (execute_data_deletion fd m) s4))))"
  using assms
  by (auto simp: run_dag_def no_xcom_def Let_def split: prod.splits sum.splits)

lemma run_dag_check_fails:
  assumes "identify_expired_data s = (ed, s1)"
    and "with_retries retries (check_legal_holds ed) s1 = (Inl e, s2)"
  shows "run_dag s = (no_xcom\<lparr>x_expired_data := Some ed\<rparr>, s2)"
  using assms by (simp add: run_dag_def Let_def)

lemma run_dag_report:
  assumes "x_report (fst (run_dag s)) = Some rep"
  shows "\<exists>dr. x_deletion_results (fst (run_dag s)) = Some dr"
  using assms
  by (auto simp: run_dag_def no_xcom_def Let_def split: prod.splits sum.splits)

lemma run_manifest_row:
  assumes "x_deletion_results (fst (run_dag s)) = Some dr"
  shows "\<exists>m i. x_deletion_manifest (fst (run_dag s)) = Some m \<and> manifest_id m = Some i \<and>
           i \<in> dm_id ` set (data_deletion_manifests (snd (run_dag s))) \<and>
           (\<forall>row \<in> set (data_deletion_manifests (snd (run_dag s))).
              dm_id row = i \<longrightarrow>
                dm_status row = manifest_status dr \<and> dm_deletion_results row = Some dr)"
proof -
  from run_dag_results[OF assms] obtain fd lh ar s3 m s4 s5 where
    cr: "with_retries retries (create_deletion_manifest fd ar) s3 = (Inr m, s4)" and
    ex: "with_retries retries (execute_data_deletion fd m) s4 = (Inr dr, s5)" and
    fin: "snd (run_dag s) = snd (with_retries retries (generate_compliance_report m dr lh) s5)" and
    xm: "x_deletion_manifest (fst (run_dag s)) = Some m"
    by blast
  from with_retries_final[OF cr, of "\<lambda>_. True"] obtain c0 where
    c0: "create_deletion_manifest fd ar c0 = (Inr m, s4)" by blast
  define i where "i = manifest_seq c0"
  from create_deletion_manifest_Inr(1,4)[OF c0]
  have mid: "manifest_id m = Some i" and in4: "i \<in> dm_id ` set (data_deletion_manifests s4)"
    by (simp_all add: i_def)
  have "\<exists>e0. i \<in> dm_id ` set (data_deletion_manifests e0) \<and>
          execute_data_deletion fd m e0 = (Inr dr, s5)"
  proof (rule with_retries_final[OF ex])
    show "i \<in> dm_id ` set (data_deletion_manifests s4)" by (rule in4)
  next
    fix s0 e s1
    assume "i \<in> dm_id ` set (data_deletion_manifests s0)"
      and "execute_data_deletion fd m s0 = (Inl e, s1)"
    then show "i \<in> dm_id ` set (data_deletion_manifests s1)"
      using execute_data_deletion_Inl by simp
  qed
  then obtain e0 where in0: "i \<in> dm_id ` set (data_deletion_manifests e0)"
    and e0: "execute_data_deletion fd m e0 = (Inr dr, s5)" by blast
  define td where "td = snd (fst (delete_tables fd [] 0 e0))"
  define now where "now = NOW (snd (delete_tables fd [] 0 e0))"
  from execute_data_deletion_Inr(2)[OF e0] mid have
    m5: "data_deletion_manifests s5 =
           map (\<lambda>r. if dm_id r = i
                    then r\<lparr>dm_status := manifest_status dr, dm_deletion_results := Some dr,
                           dm_actual_deletions := Some td, dm_completed_at := Some now\<rparr>
                    else r)
             (data_deletion_manifests e0)" by (simp add: td_def now_def)
  have ids: "map dm_id (data_deletion_manifests s5) = map dm_id (data_deletion_manifests e0)"
    unfolding m5 by (rule map_dm_id_update)
  have in5: "i \<in> dm_id ` set (data_deletion_manifests s5)"
  proof -
    have "dm_id ` set (data_deletion_manifests s5) =
            set (map dm_id (data_deletion_manifests s5))" by simp
    also have "\<dots> = set (map dm_id (data_deletion_manifests e0))" by (simp only: ids)
    also have "\<dots> = dm_id ` set (data_deletion_manifests e0)" by simp
    finally show ?thesis using in0 by simp
  qed
  have all5: "\<forall>row \<in> set (data_deletion_manifests s5).
                dm_id row = i \<longrightarrow>
                  dm_status row = manifest_status dr \<and> dm_deletion_results row = Some dr"
  proof (intro ballI impI)
    fix row
    assume r: "row \<in> set (data_deletion_manifests s5)" and id: "dm_id row = i"
    from r obtain r0 where
      row: "row = (if dm_id r0 = i
                   then r0\<lparr>dm_status := manifest_status dr, dm_deletion_results := Some dr,
                           dm_actual_deletions := Some td, dm_completed_at := Some now\<rparr>
                   else r0)"
      unfolding m5 set_map by blast
    show "dm_status row = manifest_status dr \<and> dm_deletion_results row = Some dr"
    proof (cases "dm_id r0 = i")
      case True
      then show ?thesis by (simp add: row)
    next
      case False
      with id row show ?thesis by simp
    qed
  qed
  obtain r6 s6 where g: "with_retries retries (generate_compliance_report m dr lh) s5 = (r6, s6)"
    by (cases "with_retries retries (generate_compliance_report m dr lh) s5")
  have "data_deletion_manifests s6 = data_deletion_manifests s5"
  proof (rule with_retries_invariant[OF g,
        of "\<lambda>s0. data_deletion_manifests s0 = data_deletion_manifests s5"])
    show "data_deletion_manifests s5 = data_deletion_manifests s5" by (rule refl)
  next
    fix s0 r0 s1
    assume a: "data_deletion_manifests s0 = data_deletion_manifests s5"
      and b: "generate_compliance_report m dr lh s0 = (r0, s1)"
    from generate_compliance_report_manifests[OF b] a
    show "data_deletion_manifests s1 = data_deletion_manifests s5" by simp
  qed
  with fin g have final: "data_deletion_manifests (snd (run_dag s)) = data_deletion_manifests s5"
    by simp
  show ?thesis
  proof (intro exI[of _ m] exI[of _ i] conjI)
    show "x_deletion_manifest (fst (run_dag s)) = Some m" by (rule xm)
    show "manifest_id m = Some i" by (rule mid)
    show "i \<in> dm_id ` set (data_deletion_manifests (snd (run_dag s)))"
      unfolding final by (rule in5)
    show "\<forall>row \<in> set (data_deletion_manifests (snd (run_dag s))).
            dm_id row = i \<longrightarrow>
              dm_status row = manifest_status dr \<and> dm_deletion_results row = Some dr"
      unfolding final by (rule all5)
  qed
qed

subsection \<open>Runs on the example databases\<close>

lemma run_A_results: "x_deletion_results (fst (run_dag store_A)) = Some results_A"
  by code_simp

lemma run_A_manifest: "x_deletion_manifest (fst (run_dag store_A)) = Some manifest_A"
  by code_simp

lemma run_A_report: "x_report (fst (run_dag store_A)) = Some report_A"
  by code_simp

lemma check_A:
  "fst (check_legal_holds expired_A store_A) = Inr (filtered_A, holds_A)"
  by code_simp


lemma scan_C: "fst (identify_expired_data store_C) = [(''backup_data'', backup_info)]"
  by code_simp

lemma run_C_results: "x_deletion_results (fst (run_dag store_C)) = Some results_C"
  by code_simp

lemma run_F_results: "x_deletion_results (fst (run_dag store_F)) = Some results_F"
  by code_simp

lemma run_F_pushed:
  "x_filtered_expired_data (fst (run_dag store_F)) = Some filtered_F"
  "x_anonymization_results (fst (run_dag store_F)) = Some anonymization_F"
  by code_simp+

lemma profiled_F: "profiled filtered_F = [(''user_profiles'', profile_info)]"
  by (simp add: profiled_def filtered_F_def anonymization_config_def)

lemma config_profiles:
  "map_of anonymization_config ''user_profiles'' =
     Some [''email'', ''first_name'', ''last_name'', ''phone'', ''address'']"
  by (simp add: anonymization_config_def)

lemma runs_G:
  "map (\<lambda>r. (anonymized_at r, columns r ''user_id'')) (tables first_run_G ''user_activity_logs'')
     = [(Some 7777005, Some ''ANONYMIZED''), (None, Some ''u1'')]"
  "map (\<lambda>r. (anonymized_at r, columns r ''user_id'')) (tables second_run_G ''user_activity_logs'')
     = [(Some 7777005, Some ''ANONYMIZED''), (Some 7777010, Some ''ANONYMIZED'')]"
  by code_simp+

lemma runs_H:
  "anonymized_at (tables store_H ''user_profiles'' ! 0) = None"
  "anonymized_at (tables first_run_H ''user_profiles'' ! 0) = Some 100000000"
  "length (tables store_H ''user_profiles'') = 1"
  by code_simp+

section \<open>Properties\<close>

text \<open>
  C1. In every run, a category of the deletion results pushed by
  \<^verbatim>\<open>execute_data_deletion\<close> is a category of the scanner's \<open>expired_data\<close> that is
  not among the categories with a selected (active, unexpired) hold when the hold
  query ran; the held categories and the categories attempted for deletion are
  disjoint. The hold query that answered is statement \<open>n\<close> of the database, one of
  the three that follow the ten statements of the scan (the first attempt of
  \<^verbatim>\<open>check_legal_holds\<close> or one of its two retries). The \<open>legal_holds\<close> mapping
  pushed by the filter has exactly the held categories as keys.
\<close>

theorem held_categories_never_deleted:
  assumes "x_deletion_results (fst (run_dag s)) = Some dr"
  shows "\<exists>ed lh n.
           stmt_no s + 10 \<le> n \<and> n \<le> stmt_no s + 12 \<and>
           x_expired_data (fst (run_dag s)) = Some ed \<and>
           x_legal_holds (fst (run_dag s)) = Some lh \<and>
           fst ` set lh = held_categories (db_now s n) (legal_holds s) \<and>
           fst ` set dr \<subseteq> fst ` set ed - held_categories (db_now s n) (legal_holds s) \<and>
           held_categories (db_now s n) (legal_holds s) \<inter> fst ` set dr = {}"
proof -
  from run_dag_results[OF assms] obtain ed s1 fd lh s2 ar s3 m s4 s5 where
    id: "identify_expired_data s = (ed, s1)" and
    ch: "with_retries retries (check_legal_holds ed) s1 = (Inr (fd, lh), s2)" and
    ex: "with_retries retries (execute_data_deletion fd m) s4 = (Inr dr, s5)" and
    xe: "x_expired_data (fst (run_dag s)) = Some ed" and
    xl: "x_legal_holds (fst (run_dag s)) = Some lh"
    by blast
  from id identify_store[of s] have s1: "s1 = s\<lparr>stmt_no := stmt_no s + 10\<rparr>" by simp
  from check_attempt_store[OF ch] obtain j where j: "j \<le> retries"
    and at: "check_legal_holds ed (s1\<lparr>stmt_no := stmt_no s1 + j\<rparr>) = (Inr (fd, lh), s2)"
    by blast
  define k where "k = stmt_no s + 10 + j"
  from j have kb: "stmt_no s + 10 \<le> k" "k \<le> stmt_no s + 12" by (simp_all add: k_def retries_def)
  from at have k: "check_legal_holds ed (s1\<lparr>stmt_no := k\<rparr>) = (Inr (fd, lh), s2)"
    by (simp add: s1 k_def)
  then have "fst (check_legal_holds ed (s1\<lparr>stmt_no := k\<rparr>)) = Inr (fd, lh)" by simp
  from check_legal_holds_Inr[OF this]
  have lh: "fst ` set lh = held_categories (db_now s k) (legal_holds s)"
    and fd: "fst ` set fd = fst ` set ed - fst ` set lh"
    by (simp_all add: s1 NOW_def)
  from with_retries_final[OF ex, of "\<lambda>_. True"] obtain s0 where
    "execute_data_deletion fd m s0 = (Inr dr, s5)" by blast
  then have dr: "fst ` set dr = fst ` set fd" by (rule execute_data_deletion_keys)
  have "fst ` set dr \<subseteq> fst ` set ed - held_categories (db_now s k) (legal_holds s)"
    using lh fd dr by simp
  moreover have "held_categories (db_now s k) (legal_holds s) \<inter> fst ` set dr = {}"
    using lh fd dr by auto
  ultimately show ?thesis using xe xl lh kb
    by (intro exI[of _ ed] exI[of _ lh] exI[of _ k]) simp
qed

theorem held_categories_never_deleted_witness:
  "x_deletion_results (fst (run_dag store_A)) = Some results_A \<and>
   (\<exists>ed lh n.
      stmt_no store_A + 10 \<le> n \<and> n \<le> stmt_no store_A + 12 \<and>
      x_expired_data (fst (run_dag store_A)) = Some ed \<and>
      x_legal_holds (fst (run_dag store_A)) = Some lh \<and>
      fst ` set lh = held_categories (db_now store_A n) (legal_holds store_A) \<and>
      fst ` set results_A \<subseteq>
        fst ` set ed - held_categories (db_now store_A n) (legal_holds store_A) \<and>
      held_categories (db_now store_A n) (legal_holds store_A) \<inter> fst ` set results_A = {})"
  by (rule conjI[OF run_A_results held_categories_never_deleted[OF run_A_results]])

text \<open>
  C3. The hold lookup is the statement that follows the ten statements of the scan.
  When it raises at the first attempt of \<^verbatim>\<open>check_legal_holds\<close> and at both retries,
  the run stops there: only \<open>expired_data\<close> was pushed (no manifest, no deletion
  results, no report), and the database is as before the run but for the count of
  statements: no manifest row was inserted and no row of any table was rewritten or
  deleted.
\<close>

theorem hold_lookup_failure_aborts_run:
  assumes "db_fails s (stmt_no s + 10)" and "db_fails s (stmt_no s + 11)"
    and "db_fails s (stmt_no s + 12)"
  shows "run_dag s =
           (no_xcom\<lparr>x_expired_data := Some (fst (identify_expired_data s))\<rparr>,
            s\<lparr>stmt_no := stmt_no s + 13\<rparr>)"
proof -
  define s1 where "s1 = s\<lparr>stmt_no := stmt_no s + 10\<rparr>"
  define s2 where "s2 = s\<lparr>stmt_no := stmt_no s + 11\<rparr>"
  define s3 where "s3 = s\<lparr>stmt_no := stmt_no s + 12\<rparr>"
  define s4 where "s4 = s\<lparr>stmt_no := stmt_no s + 13\<rparr>"
  obtain ed where id: "identify_expired_data s = (ed, s1)"
    using identify_store[of s] by (cases "identify_expired_data s") (simp add: s1_def)
  have a1: "check_legal_holds ed s1 = (Inl (DatabaseError (stmt_no s + 10)), s2)"
    using check_legal_holds_raises[of s1 ed] assms(1)
    by (simp add: raises_def executed_def s1_def s2_def)
  have a2: "check_legal_holds ed s2 = (Inl (DatabaseError (stmt_no s + 11)), s3)"
    using check_legal_holds_raises[of s2 ed] assms(2)
    by (simp add: raises_def executed_def s2_def s3_def)
  have a3: "check_legal_holds ed s3 = (Inl (DatabaseError (stmt_no s + 12)), s4)"
    using check_legal_holds_raises[of s3 ed] assms(3)
    by (simp add: raises_def executed_def s3_def s4_def)
  have "with_retries retries (check_legal_holds ed) s1 =
          (Inl (DatabaseError (stmt_no s + 12)), s4)"
    by (simp add: retries_def numeral_2_eq_2 a1 a2 a3)
  from run_dag_check_fails[OF id this] id show ?thesis by (simp add: s4_def)
qed

theorem hold_lookup_failure_aborts_run_witness:
  "db_fails store_E (stmt_no store_E + 10) \<and> db_fails store_E (stmt_no store_E + 11) \<and>
   db_fails store_E (stmt_no store_E + 12) \<and>
   run_dag store_E =
     (no_xcom\<lparr>x_expired_data := Some (fst (identify_expired_data store_E))\<rparr>,
      store_E\<lparr>stmt_no := stmt_no store_E + 13\<rparr>)"
proof -
  have "db_fails store_E (stmt_no store_E + 10)" "db_fails store_E (stmt_no store_E + 11)"
    "db_fails store_E (stmt_no store_E + 12)"
    by (simp_all add: store_E_def store_A_def)
  then show ?thesis using hold_lookup_failure_aborts_run[of store_E] by simp
qed

text \<open>
  C4. In every run that pushes deletion results, the manifest row of the run exists,
  its \<open>deletion_results\<close> column holds exactly the pushed results, and its status is
  \<^verbatim>\<open>COMPLETED\<close> if and only if every recorded result has \<open>success = True\<close>; in
  every other case the status is \<^verbatim>\<open>PARTIAL\<close>.
\<close>

theorem manifest_status_completed_iff_all_success:
  assumes "x_deletion_results (fst (run_dag s)) = Some dr"
  shows "\<exists>m i. x_deletion_manifest (fst (run_dag s)) = Some m \<and> manifest_id m = Some i \<and>
           i \<in> dm_id ` set (data_deletion_manifests (snd (run_dag s))) \<and>
           (\<forall>row \<in> set (data_deletion_manifests (snd (run_dag s))).
              dm_id row = i \<longrightarrow>
                dm_deletion_results row = Some dr \<and>
                (dm_status row = ''COMPLETED'') = (\<forall>r \<in> snd ` set dr. success r = Some True) \<and>
                (dm_status row \<noteq> ''COMPLETED'' \<longrightarrow> dm_status row = ''PARTIAL''))"
proof -
  from run_manifest_row[OF assms] obtain m i where
    xm: "x_deletion_manifest (fst (run_dag s)) = Some m" and mid: "manifest_id m = Some i" and
    ex: "i \<in> dm_id ` set (data_deletion_manifests (snd (run_dag s)))" and
    all: "\<forall>row \<in> set (data_deletion_manifests (snd (run_dag s))).
            dm_id row = i \<longrightarrow>
              dm_status row = manifest_status dr \<and> dm_deletion_results row = Some dr"
    by blast
  show ?thesis
  proof (intro exI[of _ m] exI[of _ i] conjI ballI impI)
    fix row
    assume "row \<in> set (data_deletion_manifests (snd (run_dag s)))" and "dm_id row = i"
    with all have st: "dm_status row = manifest_status dr"
      and res: "dm_deletion_results row = Some dr" by auto
    show "dm_deletion_results row = Some dr" by (rule res)
    show "(dm_status row = ''COMPLETED'') = (\<forall>r \<in> snd ` set dr. success r = Some True)"
      unfolding st by (rule manifest_status_iff)
    assume "dm_status row \<noteq> ''COMPLETED''"
    then show "dm_status row = ''PARTIAL''" unfolding st by (rule manifest_status_cases)
  qed (rule xm mid ex)+
qed

theorem manifest_status_completed_iff_all_success_witness:
  "x_deletion_results (fst (run_dag store_A)) = Some results_A \<and>
   (\<exists>m i. x_deletion_manifest (fst (run_dag store_A)) = Some m \<and> manifest_id m = Some i \<and>
      i \<in> dm_id ` set (data_deletion_manifests (snd (run_dag store_A))) \<and>
      (\<forall>row \<in> set (data_deletion_manifests (snd (run_dag store_A))).
         dm_id row = i \<longrightarrow>
           dm_deletion_results row = Some results_A \<and>
           (dm_status row = ''COMPLETED'') =
             (\<forall>r \<in> snd ` set results_A. success r = Some True) \<and>
           (dm_status row \<noteq> ''COMPLETED'' \<longrightarrow> dm_status row = ''PARTIAL'')))"
  by (rule conjI[OF run_A_results
        manifest_status_completed_iff_all_success[OF run_A_results]])

text \<open>
  C5. In every run that produces a report, the report is computed from the deletion
  results that were pushed and written to the manifest row; its status is
  \<^verbatim>\<open>COMPLIANT\<close> if and only if every result has \<open>success = True\<close>, otherwise
  \<^verbatim>\<open>NEEDS_ATTENTION\<close>; and it is \<^verbatim>\<open>COMPLIANT\<close> exactly when the manifest row's
  final status is \<^verbatim>\<open>COMPLETED\<close>, \<^verbatim>\<open>NEEDS_ATTENTION\<close> exactly when it is
  \<^verbatim>\<open>PARTIAL\<close>.
\<close>

theorem report_status_mirrors_manifest_status:
  assumes "x_report (fst (run_dag s)) = Some rep"
  shows "\<exists>dr i. x_deletion_results (fst (run_dag s)) = Some dr \<and> detailed_results rep = dr \<and>
           report_manifest_id rep = Some i \<and>
           (compliance_status rep = ''COMPLIANT'') =
             (\<forall>r \<in> snd ` set dr. success r = Some True) \<and>
           (compliance_status rep \<noteq> ''COMPLIANT'' \<longrightarrow>
              compliance_status rep = ''NEEDS_ATTENTION'') \<and>
           i \<in> dm_id ` set (data_deletion_manifests (snd (run_dag s))) \<and>
           (\<forall>row \<in> set (data_deletion_manifests (snd (run_dag s))).
              dm_id row = i \<longrightarrow>
                (compliance_status rep = ''COMPLIANT'') = (dm_status row = ''COMPLETED'') \<and>
                (compliance_status rep = ''NEEDS_ATTENTION'') = (dm_status row = ''PARTIAL''))"
proof -
  from run_dag_report[OF assms] obtain dr where
    xr: "x_deletion_results (fst (run_dag s)) = Some dr" by blast
  from run_manifest_row[OF xr] obtain m i where
    xm: "x_deletion_manifest (fst (run_dag s)) = Some m" and mid: "manifest_id m = Some i" and
    ex: "i \<in> dm_id ` set (data_deletion_manifests (snd (run_dag s)))" and
    all: "\<forall>row \<in> set (data_deletion_manifests (snd (run_dag s))).
            dm_id row = i \<longrightarrow>
              dm_status row = manifest_status dr \<and> dm_deletion_results row = Some dr"
    by blast
  from run_dag_results[OF xr] xm obtain lh s5 where
    rp: "x_report (fst (run_dag s)) =
           (case fst (with_retries retries (generate_compliance_report m dr lh) s5) of
              Inl e \<Rightarrow> None | Inr rep \<Rightarrow> Some rep)"
    by auto
  obtain r6 s6 where g: "with_retries retries (generate_compliance_report m dr lh) s5 = (r6, s6)"
    by (cases "with_retries retries (generate_compliance_report m dr lh) s5")
  with rp assms have r6: "r6 = Inr rep" by (cases r6) auto
  from with_retries_final[OF g[unfolded r6], of "\<lambda>_. True"] obtain g0 where
    g0: "generate_compliance_report m dr lh g0 = (Inr rep, s6)" by blast
  note rep = generate_compliance_report_Inr[OF g0]
  show ?thesis
  proof (intro exI[of _ dr] exI[of _ i] conjI ballI impI)
    show "x_deletion_results (fst (run_dag s)) = Some dr" by (rule xr)
    show "detailed_results rep = dr" by (rule rep(2))
    show "report_manifest_id rep = Some i" using rep(3) mid by simp
    show "(compliance_status rep = ''COMPLIANT'') = (\<forall>r \<in> snd ` set dr. success r = Some True)"
      unfolding rep(1) by (rule report_status_iff)
    show "i \<in> dm_id ` set (data_deletion_manifests (snd (run_dag s)))" by (rule ex)
  next
    assume "compliance_status rep \<noteq> ''COMPLIANT''"
    then show "compliance_status rep = ''NEEDS_ATTENTION''"
      unfolding rep(1) by (rule report_status_cases)
  next
    fix row
    assume "row \<in> set (data_deletion_manifests (snd (run_dag s)))" and "dm_id row = i"
    with all have st: "dm_status row = manifest_status dr" by auto
    show "(compliance_status rep = ''COMPLIANT'') = (dm_status row = ''COMPLETED'')"
      unfolding st rep(1) by (rule status_agree)
    show "(compliance_status rep = ''NEEDS_ATTENTION'') = (dm_status row = ''PARTIAL'')"
      unfolding st rep(1) by (rule status_agree)
  qed
qed

theorem report_status_mirrors_manifest_status_witness:
  "x_report (fst (run_dag store_A)) = Some report_A \<and>
   (\<exists>dr i. x_deletion_results (fst (run_dag store_A)) = Some dr \<and>
      detailed_results report_A = dr \<and> report_manifest_id report_A = Some i \<and>
      (compliance_status report_A = ''COMPLIANT'') =
        (\<forall>r \<in> snd ` set dr. success r = Some True) \<and>
      (compliance_status report_A \<noteq> ''COMPLIANT'' \<longrightarrow>
         compliance_status report_A = ''NEEDS_ATTENTION'') \<and>
      i \<in> dm_id ` set (data_deletion_manifests (snd (run_dag store_A))) \<and>
      (\<forall>row \<in> set (data_deletion_manifests (snd (run_dag store_A))).
         dm_id row = i \<longrightarrow>
           (compliance_status report_A = ''COMPLIANT'') = (dm_status row = ''COMPLETED'') \<and>
           (compliance_status report_A = ''NEEDS_ATTENTION'') = (dm_status row = ''PARTIAL'')))"
  by (rule conjI[OF run_A_report report_status_mirrors_manifest_status[OF run_A_report]])

text \<open>
  C9. In every run that creates a manifest, \<open>total_records_to_delete\<close> is the sum of
  the counts of the filtered mapping, and at the end of the run (whether the deletion
  was executed or not) the table of manifests is the table from before the run and
  one new row, with the columns written at insertion (id, deletion date, manifest
  data with its \<open>total_records_to_delete\<close>, total records) of every row as they were
  when it was inserted. The last conjunct says it of the task alone: whatever its
  arguments, \<^verbatim>\<open>execute_data_deletion\<close> leaves these columns of every row as they are;
  its \<^verbatim>\<open>UPDATE\<close> writes status, deletion results, actual deletions and completion
  time only.
\<close>

theorem total_records_fixed_at_creation:
  assumes "x_deletion_manifest (fst (run_dag s)) = Some m"
  shows "\<exists>fd i date. x_filtered_expired_data (fst (run_dag s)) = Some fd \<and>
           manifest_id m = Some i \<and>
           total_records_to_delete m = sum_list (map (\<lambda>p. count (snd p)) fd) \<and>
           map fixed_part (data_deletion_manifests (snd (run_dag s))) =
             map fixed_part (data_deletion_manifests s) @
               [(i, date, m\<lparr>manifest_id := None\<rparr>, total_records_to_delete m)] \<and>
           map fixed_part (data_deletion_manifests (snd (execute_data_deletion fd' m' s'))) =
             map fixed_part (data_deletion_manifests s')"
proof -
  from run_dag_manifest[OF assms] obtain ed s1 fd lh s2 ar s3 s4 where
    id: "identify_expired_data s = (ed, s1)" and
    ch: "with_retries retries (check_legal_holds ed) s1 = (Inr (fd, lh), s2)" and
    an: "anonymize_before_deletion fd s2 = (ar, s3)" and
    cr: "with_retries retries (create_deletion_manifest fd ar) s3 = (Inr m, s4)" and
    xf: "x_filtered_expired_data (fst (run_dag s)) = Some fd" and
    rest: "case fst (with_retries retries (execute_data_deletion fd m) s4) of
              Inl e \<Rightarrow>
                snd (run_dag s) = snd (with_retries retries (execute_data_deletion fd m) s4) \<and>
                x_deletion_results (fst (run_dag s)) = None
            | Inr dr \<Rightarrow>
                x_deletion_results (fst (run_dag s)) = Some dr \<and>
                snd (run_dag s) =
                  snd (with_retries retries (generate_compliance_report m dr lh)
                         (snd (with_retries retries (execute_data_deletion fd m) s4)))"
    by blast
  have "rows_only s s1" using identify_rows_only[of s] id by simp
  moreover have "rows_only s1 s2" by (rule check_retries_rows_only[OF ch])
  moreover have "rows_only s2 s3"
    using anonymize_tables_rows_only[of s2 fd "[]"] an by (simp add: anonymize_before_deletion_def)
  ultimately have m3: "data_deletion_manifests s3 = data_deletion_manifests s"
    by (simp add: rows_only_def)
  from create_retries_manifests[OF cr] obtain c0 where
    c0m: "data_deletion_manifests c0 = data_deletion_manifests s3" and
    c0: "create_deletion_manifest fd ar c0 = (Inr m, s4)" by blast
  define i where "i = manifest_seq c0"
  define date where "date = datetime_now c0 1"
  note cm = create_deletion_manifest_Inr[OF c0]
  have mid: "manifest_id m = Some i" using cm(1) by (simp add: i_def)
  have f4: "map fixed_part (data_deletion_manifests s4) =
              map fixed_part (data_deletion_manifests s) @
                [(i, date, m\<lparr>manifest_id := None\<rparr>, total_records_to_delete m)]"
    unfolding cm(4) by (simp add: fixed_part_def c0m m3 i_def date_def)
  obtain r5 s5 where e: "with_retries retries (execute_data_deletion fd m) s4 = (r5, s5)"
    by (cases "with_retries retries (execute_data_deletion fd m) s4")
  have f5: "map fixed_part (data_deletion_manifests s5) =
              map fixed_part (data_deletion_manifests s4)"
    by (rule execute_retries_fixed[OF e])
  have fin: "map fixed_part (data_deletion_manifests (snd (run_dag s))) =
               map fixed_part (data_deletion_manifests s5)"
  proof (cases r5)
    case (Inl err)
    with rest e show ?thesis by simp
  next
    case (Inr dr)
    obtain r6 s6 where
      g: "with_retries retries (generate_compliance_report m dr lh) s5 = (r6, s6)"
      by (cases "with_retries retries (generate_compliance_report m dr lh) s5")
    from rest e Inr g have "snd (run_dag s) = s6" by simp
    with report_retries_manifests[OF g] show ?thesis by simp
  qed
  have upd: "map fixed_part (data_deletion_manifests (snd (execute_data_deletion fd' m' s'))) =
               map fixed_part (data_deletion_manifests s')"
    by (rule execute_data_deletion_fixed[of fd' m' s' "fst (execute_data_deletion fd' m' s')"])
      simp
  show ?thesis
  proof (intro exI[of _ fd] exI[of _ i] exI[of _ date] conjI)
    show "x_filtered_expired_data (fst (run_dag s)) = Some fd" by (rule xf)
    show "manifest_id m = Some i" by (rule mid)
    show "total_records_to_delete m = sum_list (map (\<lambda>p. count (snd p)) fd)" by (rule cm(2))
    show "map fixed_part (data_deletion_manifests (snd (run_dag s))) =
            map fixed_part (data_deletion_manifests s) @
              [(i, date, m\<lparr>manifest_id := None\<rparr>, total_records_to_delete m)]"
      unfolding fin f5 by (rule f4)
    show "map fixed_part (data_deletion_manifests (snd (execute_data_deletion fd' m' s'))) =
            map fixed_part (data_deletion_manifests s')" by (rule upd)
  qed
qed

theorem total_records_fixed_at_creation_witness:
  "x_deletion_manifest (fst (run_dag store_A)) = Some manifest_A \<and>
   (\<exists>fd i date. x_filtered_expired_data (fst (run_dag store_A)) = Some fd \<and>
      manifest_id manifest_A = Some i \<and>
      total_records_to_delete manifest_A = sum_list (map (\<lambda>p. count (snd p)) fd) \<and>
      map fixed_part (data_deletion_manifests (snd (run_dag store_A))) =
        map fixed_part (data_deletion_manifests store_A) @
          [(i, date, manifest_A\<lparr>manifest_id := None\<rparr>,
            total_records_to_delete manifest_A)] \<and>
      map fixed_part
        (data_deletion_manifests (snd (execute_data_deletion [] manifest_A store_A))) =
        map fixed_part (data_deletion_manifests store_A))"
  by (rule conjI[OF run_A_manifest
        total_records_fixed_at_creation[OF run_A_manifest, of "[]" manifest_A store_A]])

text \<open>
  C10. The hold filter is the same with and without the hold rows whose status is not
  \<^verbatim>\<open>ACTIVE\<close>, whatever their expiration; and when the lookup returns, a category of
  the scan is dropped from the filtered mapping exactly when some hold row of that
  category has status \<^verbatim>\<open>ACTIVE\<close> and an expiration that is absent or later than
  the \<^verbatim>\<open>NOW()\<close> of the lookup.
\<close>

theorem only_active_holds_suppress:
  "fst (check_legal_holds ed
          (s\<lparr>legal_holds := filter (\<lambda>h. lh_status h = ''ACTIVE'') (legal_holds s)\<rparr>))
     = fst (check_legal_holds ed s) \<and>
   (fst (check_legal_holds ed s) = Inr (fd, lh) \<longrightarrow>
      fst ` set fd =
        {t \<in> fst ` set ed.
           \<not> (\<exists>h \<in> set (legal_holds s).
                 lh_table_name h = t \<and> lh_status h = ''ACTIVE'' \<and>
                 (lh_expiration_date h = None \<or>
                  (\<exists>e. lh_expiration_date h = Some e \<and> NOW s < e)))})"
proof (intro conjI impI)
  have eq: "filter (hold_selected now) (filter (\<lambda>h. lh_status h = ''ACTIVE'') hs)
          = filter (hold_selected now) hs" for now hs
    by (induction hs) (auto simp: hold_selected_def)
  show "fst (check_legal_holds ed
          (s\<lparr>legal_holds := filter (\<lambda>h. lh_status h = ''ACTIVE'') (legal_holds s)\<rparr>))
     = fst (check_legal_holds ed s)"
    unfolding check_legal_holds_def holds_sql_def raises_def NOW_def
    by (simp add: eq Let_def del: filter_filter)
next
  assume a: "fst (check_legal_holds ed s) = Inr (fd, lh)"
  have sel: "hold_selected now h =
         (lh_status h = ''ACTIVE'' \<and>
          (lh_expiration_date h = None \<or> (\<exists>e. lh_expiration_date h = Some e \<and> now < e)))"
    for now h
    by (cases "lh_expiration_date h") (auto simp: hold_selected_def)
  have held: "t \<in> held_categories now hs =
         (\<exists>h \<in> set hs. lh_table_name h = t \<and> lh_status h = ''ACTIVE'' \<and>
            (lh_expiration_date h = None \<or> (\<exists>e. lh_expiration_date h = Some e \<and> now < e)))"
    for t now hs
    unfolding held_categories_def by (auto simp: sel)
  from check_legal_holds_Inr[OF a]
  have "fst ` set fd = fst ` set ed - held_categories (NOW s) (legal_holds s)" by simp
  also have "\<dots> = {t \<in> fst ` set ed. t \<notin> held_categories (NOW s) (legal_holds s)}" by blast
  finally show "fst ` set fd =
        {t \<in> fst ` set ed.
           \<not> (\<exists>h \<in> set (legal_holds s).
                 lh_table_name h = t \<and> lh_status h = ''ACTIVE'' \<and>
                 (lh_expiration_date h = None \<or>
                  (\<exists>e. lh_expiration_date h = Some e \<and> NOW s < e)))}"
    unfolding held by simp
qed

theorem only_active_holds_suppress_witness:
  "fst (check_legal_holds expired_A
          (store_A\<lparr>legal_holds :=
                     filter (\<lambda>h. lh_status h = ''ACTIVE'') (legal_holds store_A)\<rparr>))
     = fst (check_legal_holds expired_A store_A) \<and>
   fst (check_legal_holds expired_A store_A) = Inr (filtered_A, holds_A) \<and>
   fst ` set filtered_A =
     {t \<in> fst ` set expired_A.
        \<not> (\<exists>h \<in> set (legal_holds store_A).
              lh_table_name h = t \<and> lh_status h = ''ACTIVE'' \<and>
              (lh_expiration_date h = None \<or>
               (\<exists>e. lh_expiration_date h = Some e \<and> NOW store_A < e)))}"
  by (rule conjI[OF
        conjunct1[OF only_active_holds_suppress[of expired_A store_A filtered_A holds_A]]
        conjI[OF check_A
          mp[OF conjunct2[OF only_active_holds_suppress[of expired_A store_A filtered_A holds_A]]
             check_A]]])



text \<open>
  C2, as the code has it. A category whose anonymization failed is not kept out of
  the manifest or of the deletion: on \<open>store_F\<close> the \<^verbatim>\<open>UPDATE\<close> of
  \<^verbatim>\<open>user_profiles\<close> raises, the failure is recorded, and the run still lists
  \<^verbatim>\<open>user_profiles\<close> in the manifest, attempts its deletion and deletes its row.
\<close>

theorem failed_anonymization_still_deleted:
  "x_anonymization_results (fst (run_dag store_F)) = Some anonymization_F \<and>
   map_option (\<lambda>m. map ti_table_name (tables_affected m))
     (x_deletion_manifest (fst (run_dag store_F))) = Some [''session_data'', ''user_profiles''] \<and>
   x_deletion_results (fst (run_dag store_F)) = Some results_F \<and>
   map created_at (tables store_F ''user_profiles'') = [0] \<and>
   map created_at (tables (snd (run_dag store_F)) ''user_profiles'') = []"
  by (intro conjI; code_simp)

text \<open>
  C2, in the form that holds. In every run that reaches the deletion, the hold query
  answers at its attempt \<open>k\<close> (the earlier attempts raised), and the \<open>j\<close>-th filtered
  category with an anonymization profile has its \<^verbatim>\<open>UPDATE\<close> run as statement
  \<open>11 + k + j\<close> of the run. Its anonymization result is the failure entry
  \<open>{anonymized: False, error}\<close> exactly when that statement raises, and the success
  entry otherwise, whatever the statements of the other categories did: a failure
  is recorded for its own category only and the other categories proceed. The
  manifest and the deletion results both cover every category of the filtered
  mapping, whatever its anonymization result.
\<close>

theorem failed_anonymization_not_excluded:
  assumes "x_deletion_results (fst (run_dag s)) = Some dr"
  shows "\<exists>fd ar m k.
           x_filtered_expired_data (fst (run_dag s)) = Some fd \<and>
           x_anonymization_results (fst (run_dag s)) = Some ar \<and>
           x_deletion_manifest (fst (run_dag s)) = Some m \<and>
           k \<le> retries \<and> (\<forall>i<k. db_fails s (stmt_no s + 10 + i)) \<and>
           \<not> db_fails s (stmt_no s + 10 + k) \<and>
           fst ` set ar = fst ` set fd \<inter> fst ` set anonymization_config \<and>
           (\<forall>j t data flds.
              j < length (profiled fd) \<and> profiled fd ! j = (t, data) \<and>
              map_of anonymization_config t = Some flds \<longrightarrow>
                map_of ar t = Some (anonymization_entry s (stmt_no s + 11 + k + j) t flds data)) \<and>
           (\<forall>t r. map_of ar t = Some r \<longrightarrow> anonymized r = (anon_error r = None)) \<and>
           map ti_table_name (tables_affected m) = map fst fd \<and>
           fst ` set dr = fst ` set fd"
proof -
  from run_dag_results[OF assms] obtain ed s1 fd lh s2 ar s3 m s4 s5 where
    id: "identify_expired_data s = (ed, s1)" and
    ch: "with_retries retries (check_legal_holds ed) s1 = (Inr (fd, lh), s2)" and
    an: "anonymize_before_deletion fd s2 = (ar, s3)" and
    cr: "with_retries retries (create_deletion_manifest fd ar) s3 = (Inr m, s4)" and
    ex: "with_retries retries (execute_data_deletion fd m) s4 = (Inr dr, s5)" and
    xf: "x_filtered_expired_data (fst (run_dag s)) = Some fd" and
    xa: "x_anonymization_results (fst (run_dag s)) = Some ar" and
    xm: "x_deletion_manifest (fst (run_dag s)) = Some m"
    by blast
  from id identify_store[of s] have s1: "s1 = s\<lparr>stmt_no := stmt_no s + 10\<rparr>" by simp
  from check_attempts[OF ch] obtain k where k: "k \<le> retries"
    and f: "\<forall>i<k. db_fails s1 (stmt_no s1 + i)" and nf: "\<not> db_fails s1 (stmt_no s1 + k)"
    and s2: "s2 = s1\<lparr>stmt_no := stmt_no s1 + k + 1\<rparr>" and dist: "distinct (map fst fd)"
    by blast
  from f have f': "\<forall>i<k. db_fails s (stmt_no s + 10 + i)" by (simp add: s1)
  from nf have nf': "\<not> db_fails s (stmt_no s + 10 + k)" by (simp add: s1)
  have n2: "stmt_no s2 = stmt_no s + 11 + k" and d2: "db_fails s2 = db_fails s"
    by (simp_all add: s2 s1)
  from an have ar: "ar = fst (anonymize_tables fd [] s2)"
    by (simp add: anonymize_before_deletion_def)
  have keys: "fst ` set ar = fst ` set fd \<inter> fst ` set anonymization_config"
    unfolding ar anonymize_tables_keys by simp
  have ent: "\<forall>t r. map_of ar t = Some r \<longrightarrow> anonymized r = (anon_error r = None)"
    unfolding ar by (rule anonymize_tables_entries) simp
  have nth: "\<forall>j t data flds.
               j < length (profiled fd) \<and> profiled fd ! j = (t, data) \<and>
               map_of anonymization_config t = Some flds \<longrightarrow>
                 map_of ar t =
                   Some (anonymization_entry s (stmt_no s + 11 + k + j) t flds data)"
  proof (intro allI impI, elim conjE)
    fix j t data flds
    assume "j < length (profiled fd)" "profiled fd ! j = (t, data)"
      "map_of anonymization_config t = Some flds"
    from anonymize_tables_nth[OF dist this, of "[]" s2]
    show "map_of ar t = Some (anonymization_entry s (stmt_no s + 11 + k + j) t flds data)"
      unfolding ar by (simp add: n2 anonymization_entry_frame[OF d2])
  qed
  from with_retries_final[OF cr, of "\<lambda>_. True"] obtain c0 where
    "create_deletion_manifest fd ar c0 = (Inr m, s4)" by blast
  then have tabs: "map ti_table_name (tables_affected m) = map fst fd"
    by (rule create_deletion_manifest_Inr(3))
  from with_retries_final[OF ex, of "\<lambda>_. True"] obtain e0 where
    "execute_data_deletion fd m e0 = (Inr dr, s5)" by blast
  then have dr: "fst ` set dr = fst ` set fd" by (rule execute_data_deletion_keys)
  show ?thesis
    by (intro exI[of _ fd] exI[of _ ar] exI[of _ m] exI[of _ k] conjI xf xa xm k f' nf' keys
        nth ent tabs dr)
qed

theorem failed_anonymization_not_excluded_witness:
  "x_deletion_results (fst (run_dag store_F)) = Some results_F \<and>
   db_fails store_F 11 \<and>
   map_of anonymization_F ''user_profiles'' =
     Some \<lparr>anonymized = False, anon_fields = None, sql_executed = None,
           anon_error = Some (DatabaseError 11)\<rparr> \<and>
   (\<exists>m. x_deletion_manifest (fst (run_dag store_F)) = Some m \<and>
        map ti_table_name (tables_affected m) = [''session_data'', ''user_profiles'']) \<and>
   fst ` set results_F = {''session_data'', ''user_profiles''}"
proof -
  have fails: "db_fails store_F 11" by (simp add: store_F_def)
  from failed_anonymization_not_excluded[OF run_F_results] show ?thesis
  proof (elim exE conjE)
    fix fd ar m k
    assume xf: "x_filtered_expired_data (fst (run_dag store_F)) = Some fd"
      and xa: "x_anonymization_results (fst (run_dag store_F)) = Some ar"
      and xm: "x_deletion_manifest (fst (run_dag store_F)) = Some m"
      and f: "\<forall>i<k. db_fails store_F (stmt_no store_F + 10 + i)"
      and nth: "\<forall>j t data flds.
                 j < length (profiled fd) \<and> profiled fd ! j = (t, data) \<and>
                 map_of anonymization_config t = Some flds \<longrightarrow>
                   map_of ar t =
                     Some (anonymization_entry store_F (stmt_no store_F + 11 + k + j) t flds data)"
      and tabs: "map ti_table_name (tables_affected m) = map fst fd"
      and dr: "fst ` set results_F = fst ` set fd"
    from xf run_F_pushed(1) have fd: "fd = filtered_F" by simp
    from xa run_F_pushed(2) have ar: "ar = anonymization_F" by simp
    have k: "k = 0"
    proof (rule ccontr)
      assume "k \<noteq> 0"
      then have "0 < k" by simp
      with f[rule_format, of 0] have "db_fails store_F (stmt_no store_F + 10 + 0)" by simp
      then show False by (simp add: store_F_def)
    qed
    have pre: "0 < length (profiled fd) \<and> profiled fd ! 0 = (''user_profiles'', profile_info) \<and>
          map_of anonymization_config ''user_profiles'' =
            Some [''email'', ''first_name'', ''last_name'', ''phone'', ''address'']"
      by (simp add: fd profiled_F config_profiles)
    from nth[rule_format, OF pre]
    have "map_of ar ''user_profiles'' =
        Some (anonymization_entry store_F (stmt_no store_F + 11 + k + 0) ''user_profiles''
                [''email'', ''first_name'', ''last_name'', ''phone'', ''address''] profile_info)" .
    then have entry: "map_of anonymization_F ''user_profiles'' =
        Some \<lparr>anonymized = False, anon_fields = None, sql_executed = None,
              anon_error = Some (DatabaseError 11)\<rparr>"
      by (simp add: ar k anonymization_entry_def store_F_def)
    from tabs have tabs':
      "map ti_table_name (tables_affected m) = [''session_data'', ''user_profiles'']"
      by (simp add: fd filtered_F_def)
    from dr have dr': "fst ` set results_F = {''session_data'', ''user_profiles''}"
      by (simp add: fd filtered_F_def insert_commute)
    from xm tabs' have ex: "\<exists>m. x_deletion_manifest (fst (run_dag store_F)) = Some m \<and>
          map ti_table_name (tables_affected m) = [''session_data'', ''user_profiles'']"
      by (intro exI[of _ m] conjI)
    show ?thesis by (intro conjI run_F_results fails entry ex dr')
  qed
qed

text \<open>
  C7, as the code has it. The age comparisons of a scan and of the executor do not
  share one timestamp: on \<open>store_C\<close> two categories with the
  same retention period and the same rows are scanned, one is found to have no
  expired row and the other to have one, so no single value of \<^verbatim>\<open>NOW()\<close> gives the
  result of the scan; and the executor, which deletes the one row expired at its
  \<^verbatim>\<open>DELETE\<close>, counts one expired row a statement later.
\<close>

theorem scan_has_no_single_now:
  "tables store_C ''marketing_data'' = tables store_C ''backup_data'' \<and>
   map_of retention_policies ''marketing_data'' = map_of retention_policies ''backup_data'' \<and>
   map_of (fst (identify_expired_data store_C)) ''marketing_data'' = None \<and>
   map_of (fst (identify_expired_data store_C)) ''backup_data'' = Some backup_info \<and>
   \<not> (\<exists>now. \<forall>(t, d) \<in> set retention_policies.
              map_of (fst (identify_expired_data store_C)) t = entry_at now (tables store_C t) d) \<and>
   x_deletion_results (fst (run_dag store_C)) = Some results_C"
proof (intro conjI)
  show "tables store_C ''marketing_data'' = tables store_C ''backup_data''"
    by (simp add: store_C_def)
  show "map_of retention_policies ''marketing_data'' = map_of retention_policies ''backup_data''"
    by (simp add: retention_policies_def)
  show m: "map_of (fst (identify_expired_data store_C)) ''marketing_data'' = None"
    by (simp add: scan_C)
  show b: "map_of (fst (identify_expired_data store_C)) ''backup_data'' = Some backup_info"
    by (simp add: scan_C)
  show "\<not> (\<exists>now. \<forall>(t, d) \<in> set retention_policies.
              map_of (fst (identify_expired_data store_C)) t = entry_at now (tables store_C t) d)"
  proof
    assume "\<exists>now. \<forall>(t, d) \<in> set retention_policies.
              map_of (fst (identify_expired_data store_C)) t = entry_at now (tables store_C t) d"
    then obtain now where
      all: "\<forall>(t, d) \<in> set retention_policies.
              map_of (fst (identify_expired_data store_C)) t = entry_at now (tables store_C t) d"
      by blast
    have "(''marketing_data'', 365) \<in> set retention_policies"
      and "(''backup_data'', 365) \<in> set retention_policies"
      by (simp_all add: retention_policies_def)
    with all have "entry_at now (tables store_C ''marketing_data'') 365 = None"
      and "entry_at now (tables store_C ''backup_data'') 365 = Some backup_info"
      using m b by fastforce+
    then show False by (simp add: store_C_def)
  qed
  show "x_deletion_results (fst (run_dag store_C)) = Some results_C" by (rule run_C_results)
qed

text \<open>
  C7, in the form that holds. No timestamp is captured at the start of a run or passed to a task:
  each statement evaluates \<^verbatim>\<open>NOW()\<close> when the database runs it, once for all its
  rows. The entry of the \<open>i\<close>-th retention policy in the scan is what the \<open>i\<close>-th
  statement of the scan finds with its own \<^verbatim>\<open>NOW()\<close>; and when none of its three
  statements raises, the executor counts with the \<^verbatim>\<open>NOW()\<close> of the first, deletes
  with that of the second and counts the rows left with that of the third.
\<close>

theorem every_statement_reads_its_own_now:
  "(i < length retention_policies \<and> retention_policies ! i = (t, d) \<longrightarrow>
      map_of (fst (identify_expired_data s)) t = scan_entry s (stmt_no s + i) t d) \<and>
   (\<not> db_fails s' (stmt_no s') \<and> \<not> db_fails s' (stmt_no s' + 1) \<and>
    \<not> db_fails s' (stmt_no s' + 2) \<longrightarrow>
      fst (fst (delete_expired t' data s')) =
        (let d = retention_days data;
             rows = tables s' t';
             n = int (length (filter (is_expired (db_now s' (stmt_no s')) d) rows));
             kept = filter (\<lambda>r. \<not> is_expired (db_now s' (stmt_no s' + 1)) d r) rows;
             r = int (length (filter (is_expired (db_now s' (stmt_no s' + 2)) d) kept))
         in if 0 < n
            then \<lparr>expected_deletions = Some n, actual_deletions = Some (n - r),
                  success = Some (r = 0), remaining_records = Some r, error = None\<rparr>
            else \<lparr>expected_deletions = Some 0, actual_deletions = Some 0,
                  success = Some True, remaining_records = Some 0, error = None\<rparr>))"
  using identify_nth[of i t d s] delete_expired_clock[of s' t' data] by blast

theorem every_statement_reads_its_own_now_witness:
  "7 < length retention_policies \<and> retention_policies ! 7 = (''backup_data'', 365) \<and>
   map_of (fst (identify_expired_data store_C)) ''backup_data'' =
     scan_entry store_C (stmt_no store_C + 7) ''backup_data'' 365 \<and>
   \<not> db_fails store_C12 (stmt_no store_C12) \<and> \<not> db_fails store_C12 (stmt_no store_C12 + 1) \<and>
   \<not> db_fails store_C12 (stmt_no store_C12 + 2) \<and>
   fst (fst (delete_expired ''backup_data'' backup_info store_C12)) =
     (let d = retention_days backup_info;
          rows = tables store_C12 ''backup_data'';
          n = int (length (filter (is_expired (db_now store_C12 (stmt_no store_C12)) d) rows));
          kept = filter (\<lambda>r. \<not> is_expired (db_now store_C12 (stmt_no store_C12 + 1)) d r) rows;
          r = int (length (filter (is_expired (db_now store_C12 (stmt_no store_C12 + 2)) d) kept))
      in if 0 < n
         then \<lparr>expected_deletions = Some n, actual_deletions = Some (n - r),
               success = Some (r = 0), remaining_records = Some r, error = None\<rparr>
         else \<lparr>expected_deletions = Some 0, actual_deletions = Some 0,
               success = Some True, remaining_records = Some 0, error = None\<rparr>)"
proof -
  have a: "7 < length retention_policies \<and> retention_policies ! 7 = (''backup_data'', 365)"
    by (simp add: retention_policies_def)
  have b: "\<not> db_fails store_C12 (stmt_no store_C12) \<and>
           \<not> db_fails store_C12 (stmt_no store_C12 + 1) \<and>
           \<not> db_fails store_C12 (stmt_no store_C12 + 2)"
    by (simp add: store_C12_def store_C_def)
  note t = every_statement_reads_its_own_now[of 7 "''backup_data''" 365 store_C store_C12 "''backup_data''" backup_info]
  from mp[OF conjunct1[OF t] a] mp[OF conjunct2[OF t] b] a b show ?thesis by blast
qed

text \<open>
  C8, as the code has it. A second run of the anonymizer can change fields when the
  clock of the database has advanced: on \<open>store_G\<close> the first
  run rewrites the first row only, and the second run, on the database the first
  left, rewrites the second row, which has crossed its retention threshold in between.
\<close>

theorem second_anonymizer_run_rewrites:
  "map (\<lambda>r. (anonymized_at r, columns r ''user_id'')) (tables first_run_G ''user_activity_logs'')
     = [(Some 7777005, Some ''ANONYMIZED''), (None, Some ''u1'')] \<and>
   map (\<lambda>r. (anonymized_at r, columns r ''user_id'')) (tables second_run_G ''user_activity_logs'')
     = [(Some 7777005, Some ''ANONYMIZED''), (Some 7777010, Some ''ANONYMIZED'')] \<and>
   tables second_run_G \<noteq> tables first_run_G"
proof (intro conjI)
  show "tables second_run_G \<noteq> tables first_run_G"
  proof
    assume "tables second_run_G = tables first_run_G"
    then have "map (\<lambda>r. (anonymized_at r, columns r ''user_id''))
                 (tables second_run_G ''user_activity_logs'') =
               map (\<lambda>r. (anonymized_at r, columns r ''user_id''))
                 (tables first_run_G ''user_activity_logs'')" by simp
    then show False unfolding runs_G by simp
  qed
qed (rule runs_G)+

text \<open>
  C8, in the form that holds. Let \<open>s1\<close> be the database after a run of the anonymizer on \<open>s\<close> and
  \<open>s2\<close> the database after a second run on \<open>s1\<close>. A row that the first run has
  rewritten carries the anonymization marker and is left as it is by the second run,
  whatever the clock, the failures and the second run's input. When the clock reads
  the same \<^verbatim>\<open>NOW()\<close> for every statement and no statement fails, the second run on the
  same input changes nothing in any table.
\<close>

theorem rewritten_rows_are_skipped:
  "(let s1 = snd (anonymize_before_deletion fd s);
        s2 = snd (anonymize_before_deletion fd' s1)
    in (i < length (tables s t) \<and> tables s1 t ! i \<noteq> tables s t ! i \<longrightarrow>
          anonymized_at (tables s1 t ! i) \<noteq> None \<and> tables s2 t ! i = tables s1 t ! i) \<and>
       ((\<forall>n. db_now s n = db_now s 0) \<and> (\<forall>n. \<not> db_fails s n) \<and> fd' = fd \<longrightarrow>
          tables s2 = tables s1))"
proof -
  define s1 where "s1 = snd (anonymize_before_deletion fd s)"
  define s2 where "s2 = snd (anonymize_before_deletion fd' s1)"
  have m1: "marked_only (tables s t) (tables s1 t)"
    unfolding s1_def anonymize_before_deletion_def by (rule anonymize_tables_marked)
  have m2: "marked_only (tables s1 t) (tables s2 t)"
    unfolding s2_def anonymize_before_deletion_def by (rule anonymize_tables_marked)
  have a: "anonymized_at (tables s1 t ! i) \<noteq> None \<and> tables s2 t ! i = tables s1 t ! i"
    if i: "i < length (tables s t)" and ne: "tables s1 t ! i \<noteq> tables s t ! i"
  proof -
    from m1 i ne have mk: "anonymized_at (tables s1 t ! i) \<noteq> None"
      by (auto simp: marked_only_def)
    from m1 i have "i < length (tables s1 t)" by (simp add: marked_only_def)
    with m2 mk have "tables s2 t ! i = tables s1 t ! i" by (auto simp: marked_only_def)
    with mk show ?thesis by simp
  qed
  have b: "tables s2 = tables s1"
    if fr: "\<forall>n. db_now s n = db_now s 0" and nf: "\<forall>n. \<not> db_fails s n" and eq: "fd' = fd"
  proof -
    have ro: "rows_only s s1"
      unfolding s1_def anonymize_before_deletion_def by (rule anonymize_tables_rows_only)
    with fr have fr1: "\<forall>n. db_now s1 n = db_now s 0" by (simp add: rows_only_def)
    have "\<forall>(t, data) \<in> set fd.
            t \<in> fst ` set anonymization_config \<longrightarrow>
              all_marked (db_now s 0) (retention_days data) (tables s1 t)"
    proof (rule ballI)
      fix x assume xin: "x \<in> set fd"
      obtain t0 data0 where x: "x = (t0, data0)" by (cases x)
      show "case x of (t, data) \<Rightarrow>
            t \<in> fst ` set anonymization_config \<longrightarrow>
              all_marked (db_now s 0) (retention_days data) (tables s1 t)"
        unfolding x s1_def anonymize_before_deletion_def
        using xin[unfolded x] by (simp add: first_pass_marks[OF fr nf])
    qed
    from second_pass_id[OF fr1 this] show ?thesis
      unfolding s2_def anonymize_before_deletion_def eq .
  qed
  show ?thesis
    unfolding Let_def s1_def[symmetric] s2_def[symmetric] using a b by blast
qed

theorem rewritten_rows_are_skipped_witness:
  "0 < length (tables store_H ''user_profiles'') \<and>
   tables first_run_H ''user_profiles'' ! 0 \<noteq> tables store_H ''user_profiles'' ! 0 \<and>
   anonymized_at (tables first_run_H ''user_profiles'' ! 0) \<noteq> None \<and>
   tables second_run_H ''user_profiles'' ! 0 = tables first_run_H ''user_profiles'' ! 0 \<and>
   (\<forall>n. db_now store_H n = db_now store_H 0) \<and> (\<forall>n. \<not> db_fails store_H n) \<and>
   tables second_run_H = tables first_run_H"
proof -
  have h1: "0 < length (tables store_H ''user_profiles'')" by (simp add: runs_H)
  have h2: "tables first_run_H ''user_profiles'' ! 0 \<noteq> tables store_H ''user_profiles'' ! 0"
  proof
    assume "tables first_run_H ''user_profiles'' ! 0 = tables store_H ''user_profiles'' ! 0"
    then have "anonymized_at (tables first_run_H ''user_profiles'' ! 0) =
               anonymized_at (tables store_H ''user_profiles'' ! 0)" by simp
    then show False unfolding runs_H by simp
  qed
  have h3: "(\<forall>n. db_now store_H n = db_now store_H 0) \<and> (\<forall>n. \<not> db_fails store_H n) \<and>
            filtered_H = filtered_H"
    by (simp add: store_H_def store_F_def)
  note t = rewritten_rows_are_skipped[of filtered_H store_H filtered_H 0 "''user_profiles''",
      unfolded Let_def, folded first_run_H_def, folded second_run_H_def]
  from mp[OF conjunct1[OF t] conjI[OF h1 h2]] mp[OF conjunct2[OF t] h3] h1 h2 h3
  show ?thesis by blast
qed

end
